theory Spec2Isabelle
  imports Complex_Main
begin

section \<open>Values of the geometry core\<close>

text \<open>
  The module \<open>labelme/shape.py\<close> keeps a polygon as a Python list of \<open>QPointF\<close> values
  (\<open>self.points\<close>) and, next to it, a numpy array with one row \<open>[x, y]\<close> per point
  (\<open>self.poly_array\<close>).  Coordinates are double precision floats in the program; they are
  idealised as real numbers here, so every statement below is about the arithmetic the
  code writes down and not about rounding.

  A \<open>QPointF\<close> carries the two coordinates \<open>xp\<close> and \<open>yp\<close> (the names of the fields in Qt).
\<close>

datatype QPointF = QPointF (xp: real) (yp: real)

definition point_add :: "QPointF \<Rightarrow> QPointF \<Rightarrow> QPointF" where
  "point_add p q = QPointF (xp p + xp q) (yp p + yp q)"

definition point_sub :: "QPointF \<Rightarrow> QPointF \<Rightarrow> QPointF" where
  "point_sub p q = QPointF (xp p - xp q) (yp p - yp q)"

text \<open>
  The comparison \<open>==\<close> of two \<open>QPointF\<close> values belongs to Qt and not to this module, so the
  one method that compares points takes it as a parameter.  It is not equality of the
  coordinates: in Qt 5 (\<open>qpoint.h\<close>) two points compare equal when both coordinate
  differences pass \<open>qFuzzyIsNull\<close>, that is, are at most \<open>0.000000000001\<close> in absolute value.
  Points with equal coordinates compare equal, and so do points that are nearer than that.
\<close>

definition qFuzzyIsNull :: "real \<Rightarrow> bool" where
  "qFuzzyIsNull d \<longleftrightarrow> \<bar>d\<bar> \<le> 1 / 10 ^ 12"

definition QPointF_eq :: "QPointF \<Rightarrow> QPointF \<Rightarrow> bool" where
  "QPointF_eq p1 p2 \<longleftrightarrow> qFuzzyIsNull (xp p1 - xp p2) \<and> qFuzzyIsNull (yp p1 - yp p2)"

datatype QRectF = QRectF (rect_x: real) (rect_y: real) (rect_width: real) (rect_height: real)

text \<open>A row of the coordinate array, and the row \<open>[p.x(), p.y()]\<close> of a point.\<close>

type_synonym row = "real \<times> real"

definition row_of :: "QPointF \<Rightarrow> row" where
  "row_of p = (xp p, yp p)"

definition row_add :: "row \<Rightarrow> row \<Rightarrow> row" where
  "row_add r d = (fst r + fst d, snd r + snd d)"

datatype ShapeType = Polygon | Trace | Rectangle | Point | Line | Circle | Linestrip

datatype error = IndexError | TypeError | ValueError

text \<open>
  What a call does: it returns a value or raises.  A method that raises half way leaves
  the attributes it has already assigned, so every operation that can raise gives the
  outcome together with the state it leaves behind.
\<close>

datatype 'a outcome = Returned 'a | Raised error

text \<open>The one message the module logs: \<open>logger.warn(f"Index Error with point {i}")\<close>.\<close>

datatype warning = Index_Error_with_point int

text \<open>
  The attributes of a \<open>Shape\<close> that the editing and hit-testing methods read or write.
  \<open>poly_array\<close> is \<open>None\<close> until the first point is added; afterwards it is an array of
  shape \<open>(n, 2)\<close>, modelled by the list of its rows.  \<open>is_closed\<close> is the attribute
  \<open>_closed\<close>.  The write-only attributes \<open>t\<close> and \<open>component_dist\<close> and the attributes
  used for painting only are left out.
\<close>

record Shape =
  points :: "QPointF list"
  poly_array :: "row list option"
  shape_type :: ShapeType
  is_closed :: bool
  prev_val :: "int option"

section \<open>Python lists and numpy arrays\<close>

text \<open>
  \<open>list.pop(i)\<close>: a negative index counts from the end; an index that is still out of
  range raises \<open>IndexError\<close> and leaves the list alone.
\<close>

definition list_pop :: "'a list \<Rightarrow> int \<Rightarrow> error + ('a \<times> 'a list)" where
  "list_pop xs i =
     (let n = int (length xs); j = (if i < 0 then i + n else i)
      in if j < 0 \<or> n \<le> j then Inl IndexError
         else Inr (xs ! nat j, take (nat j) xs @ drop (Suc (nat j)) xs))"

text \<open>
  \<open>list.insert(i, v)\<close> never raises: a negative index counts from the end, and an index
  beyond either end is clamped to that end.
\<close>

definition list_insert :: "'a list \<Rightarrow> int \<Rightarrow> 'a \<Rightarrow> 'a list" where
  "list_insert xs i v =
     (let n = int (length xs);
          j = (if i < 0 then max 0 (i + n) else min i n)
      in take (nat j) xs @ v # drop (nat j) xs)"

text \<open>
  \<open>xs[i]\<close> for reading and \<open>xs[i] = v\<close> for writing, on a list and on the rows of an array.
\<close>

definition py_index :: "'a list \<Rightarrow> int \<Rightarrow> error + nat" where
  "py_index xs i =
     (let n = int (length xs); j = (if i < 0 then i + n else i)
      in if j < 0 \<or> n \<le> j then Inl IndexError else Inr (nat j))"

text \<open>\<open>np.delete(a, i, axis=0)\<close> with an integer \<open>i\<close>: a new array without row \<open>i\<close>.\<close>

definition np_delete :: "row list \<Rightarrow> int \<Rightarrow> error + row list" where
  "np_delete a i =
     (let n = int (length a)
      in if i < - n \<or> n \<le> i then Inl IndexError
         else (let j = nat (if i < 0 then i + n else i)
               in Inr (take j a @ drop (Suc j) a)))"

text \<open>
  \<open>np.insert(a, i, values)\<close> without \<open>axis\<close> works on the flattened array: the result
  is a new one-dimensional array; \<open>a\<close> itself is never changed.  The index is checked against
  the flattened size \<open>N\<close> and \<open>IndexError\<close> is raised when \<open>i < -N\<close> or \<open>i > N\<close>.
\<close>

definition flatten :: "row list \<Rightarrow> real list" where
  "flatten a = concat (map (\<lambda>r. [fst r, snd r]) a)"

definition np_insert :: "real list \<Rightarrow> int \<Rightarrow> real list \<Rightarrow> error + real list" where
  "np_insert flat i vals =
     (let n = int (length flat)
      in if i < - n \<or> n < i then Inl IndexError
         else (let j = nat (if i < 0 then i + n else i)
               in Inr (take j flat @ vals @ drop j flat)))"

text \<open>\<open>np.append(a, [[x, y]], axis=0)\<close>: a new array with one more row.\<close>

definition np_append :: "row list \<Rightarrow> row \<Rightarrow> row list" where
  "np_append a r = a @ [r]"

section \<open>Editing the point list and the coordinate array\<close>

definition init_poly_array :: "Shape \<Rightarrow> Shape" where
  "init_poly_array s = s\<lparr>poly_array := Some (map row_of (points s))\<rparr>"

definition close :: "Shape \<Rightarrow> Shape" where
  "close s = s\<lparr>is_closed := True\<rparr>"

text \<open>
  \<open>addPoint\<close>: \<open>point == self.points[0]\<close> is the comparison of \<open>QPointF\<close>, the parameter
  \<open>eq\<close>; it is evaluated only when there are points.
\<close>

definition addPoint :: "(QPointF \<Rightarrow> QPointF \<Rightarrow> bool) \<Rightarrow> QPointF \<Rightarrow> Shape \<Rightarrow> Shape" where
  "addPoint eq p s =
     (if points s \<noteq> [] \<and> eq p (hd (points s)) then close s
      else (let s1 = s\<lparr>points := points s @ [p]\<rparr>
            in case poly_array s1 of
                 None \<Rightarrow> init_poly_array s1
               | Some a \<Rightarrow> s1\<lparr>poly_array := Some (np_append a (row_of p))\<rparr>))"

text \<open>
  \<open>popPoint\<close>: on a shape with points, \<open>self.poly_array[:-1]\<close> is evaluated first (a
  \<open>TypeError\<close> when the array is still \<open>None\<close>), then the last point is popped and returned.
\<close>

definition popPoint :: "Shape \<Rightarrow> QPointF option outcome \<times> Shape" where
  "popPoint s =
     (if points s \<noteq> [] then
        (case poly_array s of
           None \<Rightarrow> (Raised TypeError, s)
         | Some a \<Rightarrow>
             (Returned (Some (last (points s))),
              s\<lparr>poly_array := Some (butlast a), points := butlast (points s)\<rparr>))
      else (Returned None, s))"

text \<open>
  \<open>insertPoint\<close>: the point goes into the list; then \<open>np.insert\<close> is called on the array
  and its result is dropped, so \<open>poly_array\<close> is not assigned.  On an array that is still
  \<open>None\<close>, numpy works on a one-element array, so the flattened size is 1.
\<close>

definition insertPoint :: "int \<Rightarrow> QPointF \<Rightarrow> Shape \<Rightarrow> unit outcome \<times> Shape" where
  "insertPoint i p s =
     (let s1 = s\<lparr>points := list_insert (points s) i p\<rparr>;
          flat = (case poly_array s1 of None \<Rightarrow> [0] | Some a \<Rightarrow> flatten a)
      in case np_insert flat i [xp p, yp p] of
           Inl e \<Rightarrow> (Raised e, s1)
         | Inr new_array \<Rightarrow> (Returned (), s1))"

text \<open>
  \<open>removePoint\<close>: both statements are inside \<open>try\<close>; an \<open>IndexError\<close> of either is caught
  and logged.  The result is the state left behind and the warnings logged.  On an array
  that is still \<open>None\<close>, \<open>np.delete\<close> raises numpy's \<open>AxisError\<close>, which is an \<open>IndexError\<close>.
\<close>

definition removePoint :: "int \<Rightarrow> Shape \<Rightarrow> Shape \<times> warning list" where
  "removePoint i s =
     (case list_pop (points s) i of
        Inl e \<Rightarrow> (s, [Index_Error_with_point i])
      | Inr (v, ps) \<Rightarrow>
          (let s1 = s\<lparr>points := ps\<rparr>
           in case poly_array s1 of
                None \<Rightarrow> (s1, [Index_Error_with_point i])
              | Some a \<Rightarrow>
                  (case np_delete a i of
                     Inl e \<Rightarrow> (s1, [Index_Error_with_point i])
                   | Inr a' \<Rightarrow> (s1\<lparr>poly_array := Some a'\<rparr>, []))))"

text \<open>
  \<open>moveBy\<close>: the list of translated points is assigned first, then the translated
  array (a \<open>TypeError\<close> when the array is still \<open>None\<close>).
\<close>

definition moveBy :: "QPointF \<Rightarrow> Shape \<Rightarrow> unit outcome \<times> Shape" where
  "moveBy offset s =
     (let s1 = s\<lparr>points := map (\<lambda>p. point_add p offset) (points s)\<rparr>
      in case poly_array s1 of
           None \<Rightarrow> (Raised TypeError, s1)
         | Some a \<Rightarrow>
             (Returned (), s1\<lparr>poly_array := Some (map (\<lambda>r. row_add r (row_of offset)) a)\<rparr>))"

text \<open>\<open>moveVertexBy\<close>: the point is replaced first, then the row.\<close>

definition moveVertexBy :: "int \<Rightarrow> QPointF \<Rightarrow> Shape \<Rightarrow> unit outcome \<times> Shape" where
  "moveVertexBy i offset s =
     (case py_index (points s) i of
        Inl e \<Rightarrow> (Raised e, s)
      | Inr k \<Rightarrow>
          (let s1 = s\<lparr>points := (points s)[k := point_add (points s ! k) offset]\<rparr>
           in case poly_array s1 of
                None \<Rightarrow> (Raised TypeError, s1)
              | Some a \<Rightarrow>
                  (case py_index a i of
                     Inl e \<Rightarrow> (Raised e, s1)
                   | Inr j \<Rightarrow>
                       (Returned (),
                        s1\<lparr>poly_array := Some (a[j := row_add (a ! j) (row_of offset)])\<rparr>))))"

text \<open>
  The point list and the coordinate array agree: the array exists, has one row per point,
  and row \<open>i\<close> holds the coordinates of point \<open>i\<close>.
\<close>

definition consistent :: "Shape \<Rightarrow> bool" where
  "consistent s \<longleftrightarrow> poly_array s = Some (map row_of (points s))"

text \<open>
  The constructor: no points, no array, not closed, nothing cached.  The setter of
  \<open>shape_type\<close> accepts the seven names below and replaces \<open>None\<close> by \<open>polygon\<close>.
\<close>

definition Shape_init :: "ShapeType \<Rightarrow> Shape" where
  "Shape_init st =
     \<lparr>points = [], poly_array = None, shape_type = st, is_closed = False, prev_val = None\<rparr>"

definition canAddPoint :: "Shape \<Rightarrow> bool" where
  "canAddPoint s \<longleftrightarrow> shape_type s \<in> {Polygon, Trace, Linestrip}"

definition isClosed :: "Shape \<Rightarrow> bool" where
  "isClosed s = is_closed s"

definition setOpen :: "Shape \<Rightarrow> Shape" where
  "setOpen s = s\<lparr>is_closed := False\<rparr>"

section \<open>Hit testing: the nearest vertex\<close>

text \<open>
  \<open>np.min\<close> of a non-empty array, and \<open>np.argmin\<close>: one pass from the left that moves to
  a new index only on a strictly smaller value.
\<close>

definition np_min :: "real list \<Rightarrow> real" where
  "np_min xs = fold min (tl xs) (hd xs)"

fun argmin_from :: "real list \<Rightarrow> nat \<Rightarrow> nat \<Rightarrow> real \<Rightarrow> nat" where
  "argmin_from [] k best bv = best"
| "argmin_from (x # xs) k best bv =
     (if x < bv then argmin_from xs (Suc k) k x else argmin_from xs (Suc k) best bv)"

definition np_argmin :: "real list \<Rightarrow> nat" where
  "np_argmin xs = argmin_from (tl xs) 1 0 (hd xs)"

text \<open>
  \<open>nearestVertex\<close>: the squared distances of the query point to all rows; \<open>None - array\<close>
  is a \<open>TypeError\<close>, and \<open>np.min\<close> of an array without rows is a \<open>ValueError\<close>.
\<close>

definition nearestVertex :: "QPointF \<Rightarrow> real \<Rightarrow> Shape \<Rightarrow> (nat option \<times> nat option) outcome" where
  "nearestVertex p epsilon s =
     (case poly_array s of
        None \<Rightarrow> Raised TypeError
      | Some a \<Rightarrow>
          (let component_dist = map (\<lambda>r. (fst r - xp p, snd r - yp p)) a;
               dist = map (\<lambda>c. (fst c)\<^sup>2 + (snd c)\<^sup>2) component_dist
           in if dist = [] then Raised ValueError
              else if sqrt (np_min dist) < epsilon then Returned (Some (np_argmin dist), None)
              else Returned (None, Some (np_argmin dist))))"

section \<open>Hit testing: the nearest edge\<close>

text \<open>A slice \<open>a[lo:hi]\<close> of the rows, with Python's treatment of negative and large bounds.\<close>

definition slice_bound :: "int \<Rightarrow> nat \<Rightarrow> nat" where
  "slice_bound i n = (if i < 0 then nat (max 0 (i + int n)) else min (nat i) n)"

definition py_slice :: "'a list \<Rightarrow> int \<Rightarrow> int \<Rightarrow> 'a list" where
  "py_slice a lo hi =
     (let l = slice_bound lo (length a); h = slice_bound hi (length a)
      in take (h - l) (drop l a))"

text \<open>
  The body of the loop of \<open>nearestEdge\<close>.  For the forward index \<open>i\<close> the line is the
  closing edge \<open>[a[-1], a[0]]\<close> when \<open>i\<close> is \<open>0\<close> or \<open>lenght\<close>; otherwise \<open>i\<close> is reduced
  modulo \<open>lenght\<close> and the line is \<open>a[i - 1:i + 1]\<close>.  The reduced \<open>i\<close> is what the loop
  stores and returns.  The loop runs only when the array has two rows or more, so
  \<open>a[-1]\<close> and \<open>a[0]\<close> exist where they are read.
\<close>

definition line_pos :: "row list \<Rightarrow> int \<Rightarrow> int \<times> row list" where
  "line_pos a i =
     (let lenght = int (length a)
      in if i = 0 then (i, [last a, hd a])
         else if i = lenght then (i, [last a, hd a])
         else (let i' = i mod lenght in (i', py_slice a (i' - 1) (i' + 1))))"

definition line_neg :: "row list \<Rightarrow> int \<Rightarrow> row list" where
  "line_neg a j =
     (if j > 0 \<or> j < - 1 then py_slice a (j - 1) (j + 1)
      else if j = 0 then [last a, hd a]
      else take 2 a)"

text \<open>
  The loop over the zipped ranges.  \<open>labelme.utils.distancetoline\<close> is not part of this
  module: the loop takes it as the parameter \<open>dl\<close>.  A hit gives the pair of the value
  stored in \<open>prev_val\<close> and the value returned.
\<close>

fun edge_search ::
  "(QPointF \<Rightarrow> row list \<Rightarrow> real) \<Rightarrow> QPointF \<Rightarrow> real \<Rightarrow> row list \<Rightarrow> (int \<times> int) list
     \<Rightarrow> (int \<times> int) option" where
  "edge_search dl p epsilon a [] = None"
| "edge_search dl p epsilon a ((i, j) # rest) =
     (let i' = fst (line_pos a i);
          dist_i = dl p (snd (line_pos a i));
          dist_j = dl p (line_neg a j)
      in if dist_i \<le> epsilon then Some (i', i')
         else if dist_j \<le> epsilon then Some (i', j)
         else edge_search dl p epsilon a rest)"

text \<open>
  \<open>range(m, m + h)\<close> zipped with \<open>range(m, m - h, -1)\<close>, for \<open>h = int(lenght / 2)\<close>.
\<close>

definition index_pairs :: "int \<Rightarrow> nat \<Rightarrow> (int \<times> int) list" where
  "index_pairs m h = zip (map (\<lambda>k. m + int k) [0..<h]) (map (\<lambda>k. m - int k) [0..<h])"

text \<open>
  \<open>nearestEdge\<close>, with the value \<open>t\<close> of \<open>time.time()\<close> as an argument: within 5 ms of a
  full second a cached \<open>prev_val\<close> is returned without any search.  \<open>np.round\<close> rounds a
  half to the even neighbour and \<open>round\<close> rounds it up; the distance of \<open>t\<close> to either
  neighbour is one half then, so the test is the same.  \<open>len(None)\<close> is a \<open>TypeError\<close>.
\<close>

definition nearestEdge ::
  "(QPointF \<Rightarrow> row list \<Rightarrow> real) \<Rightarrow> real \<Rightarrow> QPointF \<Rightarrow> real \<Rightarrow> int \<Rightarrow> Shape
     \<Rightarrow> int option outcome \<times> Shape" where
  "nearestEdge dl t p epsilon minDistIndex s =
     (if \<bar>t - of_int (round t)\<bar> \<le> 5 / 1000 \<and> prev_val s \<noteq> None then (Returned (prev_val s), s)
      else case poly_array s of
             None \<Rightarrow> (Raised TypeError, s)
           | Some a \<Rightarrow>
               (let lenght = length a
                in case edge_search dl p epsilon a (index_pairs minDistIndex (lenght div 2)) of
                     None \<Rightarrow> (Returned None, s)
                   | Some (pv, r) \<Rightarrow> (Returned (Some r), s\<lparr>prev_val := Some pv\<rparr>)))"

text \<open>
  The search as the specification words it, to compare the loop with.  An edge index \<open>e\<close>
  stands for the segment from vertex \<open>e - 1\<close> to vertex \<open>e\<close>, both taken modulo the number
  \<open>n\<close> of vertices, so that the edge of index \<open>0\<close> (and of index \<open>n\<close>) closes the loop from
  the last vertex to the first.  From \<open>minDistIndex\<close> the search goes outward in both
  directions at once: step \<open>k\<close>, for \<open>k\<close> from \<open>0\<close> to \<open>n div 2 - 1\<close>, looks at the forward
  index \<open>minDistIndex + k\<close> and then at the backward index \<open>minDistIndex - k\<close>.  A forward
  index is reported modulo \<open>n\<close> (\<open>n\<close> itself is reported as it is), a backward index as it
  is.  The result is the first index in this order whose segment is within \<open>epsilon\<close> of
  the point.
\<close>

definition spec_edge_segment :: "row list \<Rightarrow> int \<Rightarrow> row list" where
  "spec_edge_segment a e =
     [a ! nat ((e - 1) mod int (length a)), a ! nat (e mod int (length a))]"

definition spec_forward_index :: "nat \<Rightarrow> int \<Rightarrow> int" where
  "spec_forward_index n i = (if i = int n then i else i mod int n)"

definition spec_search_order :: "nat \<Rightarrow> int \<Rightarrow> int list" where
  "spec_search_order n m =
     concat (map (\<lambda>k. [spec_forward_index n (m + int k), m - int k]) [0..<n div 2])"

definition spec_nearestEdge ::
  "(QPointF \<Rightarrow> row list \<Rightarrow> real) \<Rightarrow> QPointF \<Rightarrow> real \<Rightarrow> row list \<Rightarrow> int \<Rightarrow> int option" where
  "spec_nearestEdge dl p epsilon a m =
     find (\<lambda>e. dl p (spec_edge_segment a e) \<le> epsilon) (spec_search_order (length a) m)"

text \<open>
  Modelled from the spec: \<open>labelme.utils.distancetoline\<close> is missing from the sources; the
  specification describes it as the distance of the point to the segment between the two
  rows of the line.  The nearest point of the segment is an end point when the foot of
  the perpendicular falls outside, and the foot otherwise.  Only lines of two rows are
  segments; the value on any other list is not used below.
\<close>

fun distancetoline :: "QPointF \<Rightarrow> row list \<Rightarrow> real" where
  "distancetoline p [a, b] =
     (let ux = fst b - fst a; uy = snd b - snd a;
          vx = xp p - fst a; vy = yp p - snd a;
          wx = xp p - fst b; wy = yp p - snd b
      in if ux * vx + uy * vy \<le> 0 then sqrt (vx\<^sup>2 + vy\<^sup>2)
         else if 0 \<le> ux * wx + uy * wy then sqrt (wx\<^sup>2 + wy\<^sup>2)
         else \<bar>ux * vy - uy * vx\<bar> / sqrt (ux\<^sup>2 + uy\<^sup>2))"
| "distancetoline p line = 0"

section \<open>Paths\<close>

text \<open>
  A \<open>QPainterPath\<close> is modelled by the list of the elements added to it; constructing it
  with a start point is a \<open>MoveTo\<close>.  What Qt computes from a path (\<open>contains\<close>,
  \<open>boundingRect\<close>) is a parameter of the two methods that ask for it.
\<close>

datatype path_element = MoveTo QPointF | LineTo QPointF | AddRect QRectF | AddEllipse QRectF

type_synonym QPainterPath = "path_element list"

definition getRectFromLine :: "QPointF \<Rightarrow> QPointF \<Rightarrow> QRectF" where
  "getRectFromLine pt1 pt2 = QRectF (xp pt1) (yp pt1) (xp pt2 - xp pt1) (yp pt2 - yp pt1)"

definition getCircleRectFromLine :: "QPointF list \<Rightarrow> QRectF option" where
  "getCircleRectFromLine line =
     (if length line \<noteq> 2 then None
      else (let c = line ! 0;
                r = point_sub (line ! 0) (line ! 1);
                d = sqrt ((xp r)\<^sup>2 + (yp r)\<^sup>2)
            in Some (QRectF (xp c - d) (yp c - d) (2 * d) (2 * d))))"

text \<open>
  \<open>makePath\<close>: \<open>self.points[0]\<close> in the last branch raises \<open>IndexError\<close> on an empty list.
  \<open>addEllipse(None)\<close> would be a \<open>TypeError\<close>.
\<close>

definition makePath :: "Shape \<Rightarrow> QPainterPath outcome" where
  "makePath s =
     (if shape_type s = Rectangle then
        (if length (points s) = 2
         then Returned [AddRect (getRectFromLine (points s ! 0) (points s ! 1))]
         else Returned [])
      else if shape_type s = Circle then
        (if length (points s) = 2
         then (case getCircleRectFromLine (points s) of
                 None \<Rightarrow> Raised TypeError
               | Some rectangle \<Rightarrow> Returned [AddEllipse rectangle])
         else Returned [])
      else (case points s of
              [] \<Rightarrow> Raised IndexError
            | p0 # ps \<Rightarrow> Returned (MoveTo p0 # map LineTo ps)))"

definition containsPoint ::
  "(QPainterPath \<Rightarrow> QPointF \<Rightarrow> bool) \<Rightarrow> QPointF \<Rightarrow> Shape \<Rightarrow> bool outcome" where
  "containsPoint path_contains pt s =
     (case makePath s of
        Raised e \<Rightarrow> Raised e
      | Returned path \<Rightarrow> Returned (path_contains path pt))"

definition boundingRect :: "(QPainterPath \<Rightarrow> QRectF) \<Rightarrow> Shape \<Rightarrow> QRectF outcome" where
  "boundingRect path_boundingRect s =
     (case makePath s of
        Raised e \<Rightarrow> Raised e
      | Returned path \<Rightarrow> Returned (path_boundingRect path))"

section \<open>Shapes used as examples\<close>

text \<open>
  The shapes of the examples, drawn point by point with \<open>addPoint\<close> under the comparison
  of Qt.
\<close>

definition draw :: "ShapeType \<Rightarrow> QPointF list \<Rightarrow> Shape" where
  "draw st ps = fold (addPoint QPointF_eq) ps (Shape_init st)"


definition closed_square :: Shape where
  "closed_square =
     draw Polygon [QPointF 0 0, QPointF 10 0, QPointF 10 10, QPointF 0 10, QPointF 0 0]"

definition one_point :: Shape where
  "one_point = draw Polygon [QPointF 0 0]"

definition two_points :: Shape where
  "two_points = draw Polygon [QPointF 0 0, QPointF 10 0]"

definition circle_two_points :: Shape where
  "circle_two_points = draw Circle [QPointF 0 0, QPointF 3 4]"

definition dart :: Shape where
  "dart = draw Polygon [QPointF 5 1, QPointF 5 20, QPointF 0 0, QPointF 10 0]"

definition circle_one_point :: Shape where
  "circle_one_point = draw Circle [QPointF 0 0]"

section \<open>The example shapes, evaluated\<close>
lemma circle_two_points_eq:
  "circle_two_points = \<lparr>points = [QPointF 0 0, QPointF 3 4], poly_array = Some [(0, 0), (3, 4)],
                  shape_type = Circle, is_closed = False, prev_val = None\<rparr>"
  by (simp add: circle_two_points_def draw_def Shape_init_def addPoint_def init_poly_array_def
      np_append_def row_of_def close_def QPointF_eq_def qFuzzyIsNull_def)

lemma circle_one_point_eq:
  "circle_one_point = \<lparr>points = [QPointF 0 0], poly_array = Some [(0, 0)],
                  shape_type = Circle, is_closed = False, prev_val = None\<rparr>"
  by (simp add: circle_one_point_def draw_def Shape_init_def addPoint_def init_poly_array_def
      np_append_def row_of_def close_def QPointF_eq_def qFuzzyIsNull_def)

lemma sqrt_25: "sqrt 25 = 5"
  using real_sqrt_abs [of 5] by simp


lemma one_point_eq:
  "one_point = \<lparr>points = [QPointF 0 0], poly_array = Some [(0, 0)],
                 shape_type = Polygon, is_closed = False, prev_val = None\<rparr>"
  by (simp add: one_point_def draw_def Shape_init_def addPoint_def init_poly_array_def
      np_append_def row_of_def close_def QPointF_eq_def qFuzzyIsNull_def)

lemma two_points_eq:
  "two_points = \<lparr>points = [QPointF 0 0, QPointF 10 0], poly_array = Some [(0, 0), (10, 0)],
                  shape_type = Polygon, is_closed = False, prev_val = None\<rparr>"
  by (simp add: two_points_def draw_def Shape_init_def addPoint_def init_poly_array_def
      np_append_def row_of_def close_def QPointF_eq_def qFuzzyIsNull_def)


lemma closed_square_eq:
  "closed_square =
     \<lparr>points = [QPointF 0 0, QPointF 10 0, QPointF 10 10, QPointF 0 10],
      poly_array = Some [(0, 0), (10, 0), (10, 10), (0, 10)],
      shape_type = Polygon, is_closed = True, prev_val = None\<rparr>"
  by (simp add: closed_square_def draw_def Shape_init_def addPoint_def init_poly_array_def
      np_append_def row_of_def close_def QPointF_eq_def qFuzzyIsNull_def)

section \<open>Removing a point\<close>

lemma list_pop_out_of_range:
  "i < - int (length xs) \<or> int (length xs) \<le> i \<Longrightarrow> list_pop xs i = Inl IndexError"
  by (auto simp: list_pop_def Let_def)

lemma list_pop_negative:
  "- int (length xs) \<le> i \<Longrightarrow> i < 0 \<Longrightarrow>
   list_pop xs i =
     Inr (xs ! nat (int (length xs) + i),
          take (nat (int (length xs) + i)) xs @ drop (Suc (nat (int (length xs) + i))) xs)"
  by (simp add: list_pop_def Let_def add.commute)

lemma np_delete_negative:
  "- int (length a) \<le> i \<Longrightarrow> i < 0 \<Longrightarrow>
   np_delete a i =
     Inr (take (nat (int (length a) + i)) a @ drop (Suc (nat (int (length a) + i))) a)"
  by (simp add: np_delete_def Let_def add.commute)

text \<open>
  Claim C7.  On a shape with consistent points and coordinates of length \<open>n\<close>, removing at
  an index \<open>i \<ge> n\<close> or \<open>i < -n\<close> logs the warning and changes nothing: the state after the
  call is the state before it.
\<close>

theorem removePoint_out_of_range:
  assumes "consistent s"
    and "i < - int (length (points s)) \<or> int (length (points s)) \<le> i"
  shows "removePoint i s = (s, [Index_Error_with_point i])"
  using assms(2) by (simp add: removePoint_def list_pop_out_of_range)

theorem removePoint_out_of_range_witness:
  "consistent \<lparr>points = [QPointF 0 0, QPointF 10 0], poly_array = Some [(0, 0), (10, 0)],
      shape_type = Polygon, is_closed = False, prev_val = None\<rparr>
   \<and> removePoint 2
       \<lparr>points = [QPointF 0 0, QPointF 10 0], poly_array = Some [(0, 0), (10, 0)],
        shape_type = Polygon, is_closed = False, prev_val = None\<rparr>
     = (\<lparr>points = [QPointF 0 0, QPointF 10 0], poly_array = Some [(0, 0), (10, 0)],
         shape_type = Polygon, is_closed = False, prev_val = None\<rparr>,
        [Index_Error_with_point 2])"
  using removePoint_out_of_range
    [of "\<lparr>points = [QPointF 0 0, QPointF 10 0], poly_array = Some [(0, 0), (10, 0)],
          shape_type = Polygon, is_closed = False, prev_val = None\<rparr>" 2]
  by (simp add: consistent_def row_of_def)

text \<open>
  Claim C9.  On a shape with \<open>n \<ge> 1\<close> consistent points, a negative index \<open>i\<close> with
  \<open>-n \<le> i \<le> -1\<close> is not ignored: the element at position \<open>n + i\<close> is removed from the
  points and from the coordinates, nothing is logged, and the result is consistent again.
  Only an index \<open>\<ge> n\<close> or \<open>< -n\<close> is logged and ignored; no index from \<open>-n\<close> to \<open>n - 1\<close>
  is logged.
\<close>

theorem removePoint_negative_index:
  assumes "consistent s"
    and "- int (length (points s)) \<le> i" and "i \<le> - 1"
  shows "removePoint i s =
           (s\<lparr>points := take (nat (int (length (points s)) + i)) (points s)
                          @ drop (Suc (nat (int (length (points s)) + i))) (points s),
              poly_array := Some (take (nat (int (length (points s)) + i)) (map row_of (points s))
                          @ drop (Suc (nat (int (length (points s)) + i))) (map row_of (points s)))\<rparr>,
            [])
         \<and> consistent (fst (removePoint i s))
         \<and> length (points (fst (removePoint i s))) + 1 = length (points s)
         \<and> (\<forall>k. (k < - int (length (points s)) \<or> int (length (points s)) \<le> k)
                \<longrightarrow> removePoint k s = (s, [Index_Error_with_point k]))
         \<and> (\<forall>k. - int (length (points s)) \<le> k \<and> k < int (length (points s))
                \<longrightarrow> snd (removePoint k s) = [])"
proof -
  let ?n = "int (length (points s))"
  let ?j = "nat (?n + i)"
  have arr: "poly_array s = Some (map row_of (points s))"
    using assms(1) by (simp add: consistent_def)
  have neg: "i < 0" using assms(3) by simp
  have pop: "list_pop (points s) i
               = Inr (points s ! ?j, take ?j (points s) @ drop (Suc ?j) (points s))"
    using list_pop_negative [OF assms(2) neg] .
  have del: "np_delete (map row_of (points s)) i
               = Inr (take ?j (map row_of (points s)) @ drop (Suc ?j) (map row_of (points s)))"
    using np_delete_negative [of "map row_of (points s)" i] assms(2) neg by simp
  have eq: "removePoint i s =
           (s\<lparr>points := take ?j (points s) @ drop (Suc ?j) (points s),
              poly_array := Some (take ?j (map row_of (points s))
                          @ drop (Suc ?j) (map row_of (points s)))\<rparr>, [])"
    by (simp add: removePoint_def pop arr del)
  have cons: "consistent (fst (removePoint i s))"
    by (simp add: eq consistent_def take_map drop_map)
  have jlt: "?j < length (points s)" using assms(2) neg by linarith
  have len: "length (points (fst (removePoint i s))) + 1 = length (points s)"
    using jlt by (simp add: eq min_def)
  have oor: "\<forall>k. (k < - ?n \<or> ?n \<le> k) \<longrightarrow> removePoint k s = (s, [Index_Error_with_point k])"
    by (simp add: removePoint_def list_pop_out_of_range)
  have inr: "\<forall>k. - ?n \<le> k \<and> k < ?n \<longrightarrow> snd (removePoint k s) = []"
    by (auto simp add: removePoint_def list_pop_def np_delete_def arr Let_def)
  from eq cons len oor inr show ?thesis by blast
qed

theorem removePoint_negative_index_witness:
  "consistent two_points
   \<and> - int (length (points two_points)) \<le> - 1
   \<and> removePoint (- 1) two_points
       = (\<lparr>points = [QPointF 0 0], poly_array = Some [(0, 0)],
           shape_type = Polygon, is_closed = False, prev_val = None\<rparr>, [])
   \<and> removePoint (- 2) two_points
       = (\<lparr>points = [QPointF 10 0], poly_array = Some [(10, 0)],
           shape_type = Polygon, is_closed = False, prev_val = None\<rparr>, [])
   \<and> removePoint (- 3) two_points = (two_points, [Index_Error_with_point (- 3)])"
proof -
  have c: "consistent two_points"
    by (simp add: two_points_eq consistent_def row_of_def)
  have l: "- int (length (points two_points)) \<le> - 1" "- int (length (points two_points)) \<le> - 2"
    by (simp_all add: two_points_eq)
  have a: "removePoint (- 1) two_points
       = (\<lparr>points = [QPointF 0 0], poly_array = Some [(0, 0)],
           shape_type = Polygon, is_closed = False, prev_val = None\<rparr>, [])"
    using removePoint_negative_index [OF c l(1)] by (simp add: two_points_eq row_of_def)
  have b: "removePoint (- 2) two_points
       = (\<lparr>points = [QPointF 10 0], poly_array = Some [(10, 0)],
           shape_type = Polygon, is_closed = False, prev_val = None\<rparr>, [])"
    using removePoint_negative_index [OF c l(2)] by (simp add: two_points_eq row_of_def)
  have d: "removePoint (- 3) two_points = (two_points, [Index_Error_with_point (- 3)])"
    using removePoint_negative_index [OF c l(1)] by (simp add: two_points_eq)
  from c l(1) a b d show ?thesis by blast
qed

section \<open>Adding a point\<close>





section \<open>Paths of circles\<close>

lemma getCircleRectFromLine_two:
  "getCircleRectFromLine [c, q] =
     Some (QRectF (xp c - sqrt ((xp c - xp q)\<^sup>2 + (yp c - yp q)\<^sup>2))
                  (yp c - sqrt ((xp c - xp q)\<^sup>2 + (yp c - yp q)\<^sup>2))
                  (2 * sqrt ((xp c - xp q)\<^sup>2 + (yp c - yp q)\<^sup>2))
                  (2 * sqrt ((xp c - xp q)\<^sup>2 + (yp c - yp q)\<^sup>2)))"
  by (simp add: getCircleRectFromLine_def point_sub_def Let_def)

text \<open>
  Claim C8.  \<open>getCircleRectFromLine\<close> gives no result on a line that does not have exactly
  two points.  On the two points \<open>c\<close> and \<open>q\<close> it gives the square with sides \<open>2d\<close> parallel
  to the axes and centre \<open>c\<close>, where \<open>d\<close> is the Euclidean distance of \<open>c\<close> and \<open>q\<close>; the path
  of a circle shape with these two points is the ellipse in that square.
\<close>

theorem getCircleRectFromLine_square:
  "(length line \<noteq> 2 \<longrightarrow> getCircleRectFromLine line = None)
   \<and> (line = [c, q] \<longrightarrow>
        (\<exists>d rectangle.
            d = sqrt ((xp c - xp q)\<^sup>2 + (yp c - yp q)\<^sup>2)
          \<and> getCircleRectFromLine line = Some rectangle
          \<and> rectangle = QRectF (xp c - d) (yp c - d) (2 * d) (2 * d)
          \<and> rect_width rectangle = 2 * d \<and> rect_height rectangle = 2 * d
          \<and> rect_x rectangle + rect_width rectangle / 2 = xp c
          \<and> rect_y rectangle + rect_height rectangle / 2 = yp c
          \<and> (shape_type s = Circle \<and> points s = line
                \<longrightarrow> makePath s = Returned [AddEllipse rectangle])))"
proof -
  have none: "length line \<noteq> 2 \<longrightarrow> getCircleRectFromLine line = None"
    by (simp add: getCircleRectFromLine_def)
  have two: "line = [c, q] \<longrightarrow>
        (\<exists>d rectangle.
            d = sqrt ((xp c - xp q)\<^sup>2 + (yp c - yp q)\<^sup>2)
          \<and> getCircleRectFromLine line = Some rectangle
          \<and> rectangle = QRectF (xp c - d) (yp c - d) (2 * d) (2 * d)
          \<and> rect_width rectangle = 2 * d \<and> rect_height rectangle = 2 * d
          \<and> rect_x rectangle + rect_width rectangle / 2 = xp c
          \<and> rect_y rectangle + rect_height rectangle / 2 = yp c
          \<and> (shape_type s = Circle \<and> points s = line
                \<longrightarrow> makePath s = Returned [AddEllipse rectangle]))"
  proof
    assume l: "line = [c, q]"
    let ?d = "sqrt ((xp c - xp q)\<^sup>2 + (yp c - yp q)\<^sup>2)"
    let ?r = "QRectF (xp c - ?d) (yp c - ?d) (2 * ?d) (2 * ?d)"
    have g: "getCircleRectFromLine line = Some ?r"
      unfolding l by (rule getCircleRectFromLine_two)
    have m: "shape_type s = Circle \<and> points s = line \<longrightarrow> makePath s = Returned [AddEllipse ?r]"
    proof
      assume h: "shape_type s = Circle \<and> points s = line"
      then have "getCircleRectFromLine (points s) = Some ?r" using g by simp
      then show "makePath s = Returned [AddEllipse ?r]"
        using h l by (simp add: makePath_def)
    qed
    have geom: "rect_width ?r = 2 * ?d" "rect_height ?r = 2 * ?d"
      "rect_x ?r + rect_width ?r / 2 = xp c" "rect_y ?r + rect_height ?r / 2 = yp c"
      by simp_all
    from g m geom show "\<exists>d rectangle.
            d = sqrt ((xp c - xp q)\<^sup>2 + (yp c - yp q)\<^sup>2)
          \<and> getCircleRectFromLine line = Some rectangle
          \<and> rectangle = QRectF (xp c - d) (yp c - d) (2 * d) (2 * d)
          \<and> rect_width rectangle = 2 * d \<and> rect_height rectangle = 2 * d
          \<and> rect_x rectangle + rect_width rectangle / 2 = xp c
          \<and> rect_y rectangle + rect_height rectangle / 2 = yp c
          \<and> (shape_type s = Circle \<and> points s = line
                \<longrightarrow> makePath s = Returned [AddEllipse rectangle])"
      by blast
  qed
  from none two show ?thesis by blast
qed

theorem getCircleRectFromLine_square_witness:
  "length [QPointF 0 0] \<noteq> 2
   \<and> getCircleRectFromLine [QPointF 0 0] = None
   \<and> getCircleRectFromLine [QPointF 0 0, QPointF 3 4] = Some (QRectF (- 5) (- 5) 10 10)
   \<and> shape_type circle_two_points = Circle
   \<and> points circle_two_points = [QPointF 0 0, QPointF 3 4]
   \<and> makePath circle_two_points = Returned [AddEllipse (QRectF (- 5) (- 5) 10 10)]"
proof -
  have n: "length [QPointF 0 0] \<noteq> 2" by simp
  have none: "getCircleRectFromLine [QPointF 0 0] = None"
    using getCircleRectFromLine_square [of "[QPointF 0 0]"] n by blast
  have st: "shape_type circle_two_points = Circle"
    and pts: "points circle_two_points = [QPointF 0 0, QPointF 3 4]"
    by (simp_all add: circle_two_points_eq)
  obtain d rectangle where
    d: "d = sqrt ((xp (QPointF 0 0) - xp (QPointF 3 4))\<^sup>2
                 + (yp (QPointF 0 0) - yp (QPointF 3 4))\<^sup>2)"
    and g: "getCircleRectFromLine [QPointF 0 0, QPointF 3 4] = Some rectangle"
    and r: "rectangle = QRectF (xp (QPointF 0 0) - d) (yp (QPointF 0 0) - d) (2 * d) (2 * d)"
    and m: "shape_type circle_two_points = Circle
              \<and> points circle_two_points = [QPointF 0 0, QPointF 3 4]
            \<longrightarrow> makePath circle_two_points = Returned [AddEllipse rectangle]"
    using getCircleRectFromLine_square
      [of "[QPointF 0 0, QPointF 3 4]" "QPointF 0 0" "QPointF 3 4" circle_two_points]
    by blast
  have d5: "d = 5" unfolding d by (simp add: sqrt_25)
  have r5: "rectangle = QRectF (- 5) (- 5) 10 10" unfolding r d5 by simp
  from n none g m st pts show ?thesis unfolding r5 by blast
qed

section \<open>Paths of shapes without points\<close>

text \<open>
  Claim C10.  For a shape that is neither a rectangle nor a circle, \<open>makePath\<close> reads
  \<open>points[0]\<close> in any case: with points it returns the polyline from the first point
  through the others, and on an empty shape it fails with \<open>IndexError\<close>, and so do
  \<open>containsPoint\<close> and \<open>boundingRect\<close>.  For a rectangle or a circle with a number of
  points other than two, \<open>makePath\<close> returns the empty path and does not fail.
\<close>

theorem makePath_empty_shape:
  "(shape_type s \<noteq> Rectangle \<and> shape_type s \<noteq> Circle \<longrightarrow>
      (points s = [] \<longrightarrow>
         makePath s = Raised IndexError
         \<and> containsPoint path_contains pt s = Raised IndexError
         \<and> boundingRect path_boundingRect s = Raised IndexError)
      \<and> (points s \<noteq> [] \<longrightarrow>
         makePath s = Returned (MoveTo (hd (points s)) # map LineTo (tl (points s)))
         \<and> containsPoint path_contains pt s
             = Returned (path_contains (MoveTo (hd (points s)) # map LineTo (tl (points s))) pt)
         \<and> boundingRect path_boundingRect s
             = Returned (path_boundingRect (MoveTo (hd (points s)) # map LineTo (tl (points s))))))
   \<and> ((shape_type s = Rectangle \<or> shape_type s = Circle) \<and> length (points s) \<noteq> 2 \<longrightarrow>
      makePath s = Returned [])"
proof -
  have e: "shape_type s \<noteq> Rectangle \<and> shape_type s \<noteq> Circle \<longrightarrow> points s = [] \<longrightarrow>
         makePath s = Raised IndexError
         \<and> containsPoint path_contains pt s = Raised IndexError
         \<and> boundingRect path_boundingRect s = Raised IndexError"
    by (simp add: makePath_def containsPoint_def boundingRect_def)
  have n: "shape_type s \<noteq> Rectangle \<and> shape_type s \<noteq> Circle \<longrightarrow> points s \<noteq> [] \<longrightarrow>
         makePath s = Returned (MoveTo (hd (points s)) # map LineTo (tl (points s)))
         \<and> containsPoint path_contains pt s
             = Returned (path_contains (MoveTo (hd (points s)) # map LineTo (tl (points s))) pt)
         \<and> boundingRect path_boundingRect s
             = Returned (path_boundingRect (MoveTo (hd (points s)) # map LineTo (tl (points s))))"
    by (cases "points s") (simp_all add: makePath_def containsPoint_def boundingRect_def)
  have r: "(shape_type s = Rectangle \<or> shape_type s = Circle) \<and> length (points s) \<noteq> 2 \<longrightarrow>
      makePath s = Returned []"
    by (auto simp add: makePath_def)
  from e n r show ?thesis by blast
qed

theorem makePath_empty_shape_witness:
  "shape_type (Shape_init Polygon) \<noteq> Rectangle \<and> shape_type (Shape_init Polygon) \<noteq> Circle
   \<and> points (Shape_init Polygon) = []
   \<and> makePath (Shape_init Polygon) = Raised IndexError
   \<and> containsPoint (\<lambda>path pt. True) (QPointF 1 1) (Shape_init Polygon) = Raised IndexError
   \<and> boundingRect (\<lambda>path. QRectF 0 0 0 0) (Shape_init Polygon) = Raised IndexError
   \<and> shape_type two_points \<noteq> Rectangle \<and> shape_type two_points \<noteq> Circle
   \<and> points two_points \<noteq> []
   \<and> makePath two_points = Returned [MoveTo (QPointF 0 0), LineTo (QPointF 10 0)]
   \<and> (shape_type (Shape_init Rectangle) = Rectangle \<or> shape_type (Shape_init Rectangle) = Circle)
   \<and> length (points (Shape_init Rectangle)) \<noteq> 2
   \<and> makePath (Shape_init Rectangle) = Returned []
   \<and> (shape_type circle_one_point = Rectangle \<or> shape_type circle_one_point = Circle)
   \<and> length (points circle_one_point) \<noteq> 2
   \<and> makePath circle_one_point = Returned []"
proof -
  have a: "shape_type (Shape_init Polygon) \<noteq> Rectangle \<and> shape_type (Shape_init Polygon) \<noteq> Circle"
    and a0: "points (Shape_init Polygon) = []"
    by (simp_all add: Shape_init_def)
  have a': "makePath (Shape_init Polygon) = Raised IndexError
     \<and> containsPoint (\<lambda>path pt. True) (QPointF 1 1) (Shape_init Polygon) = Raised IndexError
     \<and> boundingRect (\<lambda>path. QRectF 0 0 0 0) (Shape_init Polygon) = Raised IndexError"
    using makePath_empty_shape
      [of "Shape_init Polygon" "\<lambda>path pt. True" "QPointF 1 1" "\<lambda>path. QRectF 0 0 0 0"] a a0
    by blast
  have b: "shape_type two_points \<noteq> Rectangle \<and> shape_type two_points \<noteq> Circle"
    and b0: "points two_points \<noteq> []"
    by (simp_all add: two_points_eq)
  have b1: "makePath two_points
      = Returned (MoveTo (hd (points two_points)) # map LineTo (tl (points two_points)))"
    using makePath_empty_shape
      [of two_points "\<lambda>path pt. True" "QPointF 1 1" "\<lambda>path. QRectF 0 0 0 0"] b b0
    by blast
  have b': "makePath two_points = Returned [MoveTo (QPointF 0 0), LineTo (QPointF 10 0)]"
    unfolding b1 by (simp add: two_points_eq)
  have c: "shape_type (Shape_init Rectangle) = Rectangle \<or> shape_type (Shape_init Rectangle) = Circle"
    and c0: "length (points (Shape_init Rectangle)) \<noteq> 2"
    by (simp_all add: Shape_init_def)
  have c': "makePath (Shape_init Rectangle) = Returned []"
    using makePath_empty_shape
      [of "Shape_init Rectangle" "\<lambda>path pt. True" "QPointF 1 1" "\<lambda>path. QRectF 0 0 0 0"] c c0
    by blast
  have d: "shape_type circle_one_point = Rectangle \<or> shape_type circle_one_point = Circle"
    and d0: "length (points circle_one_point) \<noteq> 2"
    by (simp_all add: circle_one_point_eq)
  have d': "makePath circle_one_point = Returned []"
    using makePath_empty_shape
      [of circle_one_point "\<lambda>path pt. True" "QPointF 1 1" "\<lambda>path. QRectF 0 0 0 0"] d d0
    by blast
  from a a0 a' b b0 b' c c0 c' d d0 d' show ?thesis by blast
qed

section \<open>The invariant of points and coordinates\<close>

text \<open>
  Five of the six mutating methods keep the point list and the coordinate array in step.
\<close>

lemma addPoint_consistent: "consistent s \<Longrightarrow> consistent (addPoint eq p s)"
  by (simp add: consistent_def addPoint_def close_def np_append_def Let_def)

lemma popPoint_consistent:
  "consistent s \<Longrightarrow> consistent (snd (popPoint s)) \<and> (\<exists>v. fst (popPoint s) = Returned v)"
  by (simp add: consistent_def popPoint_def map_butlast)

lemma removePoint_consistent: "consistent s \<Longrightarrow> consistent (fst (removePoint i s))"
  by (auto simp add: consistent_def removePoint_def list_pop_def np_delete_def Let_def
      take_map drop_map split: if_splits)

lemma moveBy_consistent:
  "consistent s \<Longrightarrow> consistent (snd (moveBy offset s)) \<and> fst (moveBy offset s) = Returned ()"
  by (simp add: consistent_def moveBy_def Let_def row_of_def row_add_def point_add_def)

lemma moveVertexBy_consistent:
  "consistent s \<Longrightarrow> consistent (snd (moveVertexBy i offset s))"
  by (auto simp add: consistent_def moveVertexBy_def py_index_def Let_def map_update
      row_of_def row_add_def point_add_def split: if_splits)

text \<open>
  \<open>insertPoint\<close> does not: whatever the index, the point list gets one element more and
  the coordinate array stays as it was.
\<close>

lemma insertPoint_state:
  "snd (insertPoint i p s) = s\<lparr>points := list_insert (points s) i p\<rparr>"
  by (simp add: insertPoint_def Let_def split: sum.splits)

lemma length_list_insert: "length (list_insert xs i v) = Suc (length xs)"
  by (simp add: list_insert_def Let_def)

lemma insertPoint_not_consistent:
  "consistent s \<Longrightarrow> \<not> consistent (snd (insertPoint i p s))"
proof
  assume c: "consistent s" and c': "consistent (snd (insertPoint i p s))"
  from c' have "poly_array s = Some (map row_of (list_insert (points s) i p))"
    by (simp add: insertPoint_state consistent_def)
  with c have "map row_of (points s) = map row_of (list_insert (points s) i p)"
    by (simp add: consistent_def)
  then have "length (points s) = length (list_insert (points s) i p)"
    by (metis length_map)
  then show False by (simp add: length_list_insert)
qed

text \<open>
  Claim C1.  The invariant that after each mutating operation the coordinate array has one
  row per point, equal to the coordinates of that point, is broken by \<open>insertPoint\<close>: on the
  consistent shape with the single point \<open>(0,0)\<close>, \<open>insertPoint(0, (5,5))\<close> returns normally
  with two points and one row.
\<close>

theorem insertPoint_breaks_invariant:
  "consistent one_point
   \<and> fst (insertPoint 0 (QPointF 5 5) one_point) = Returned ()
   \<and> points (snd (insertPoint 0 (QPointF 5 5) one_point)) = [QPointF 5 5, QPointF 0 0]
   \<and> poly_array (snd (insertPoint 0 (QPointF 5 5) one_point)) = Some [(0, 0)]
   \<and> \<not> consistent (snd (insertPoint 0 (QPointF 5 5) one_point))"
  by (simp add: one_point_eq consistent_def row_of_def insertPoint_def list_insert_def
      np_insert_def flatten_def Let_def)

section \<open>Inserting at an index out of range\<close>

text \<open>
  Claim C2 as stated: for an index outside \<open>[0, n]\<close>, \<open>insertPoint\<close> fails with an index
  error and leaves points and coordinates as they were.  It does not: on the shape with
  the single point \<open>(0,0)\<close>, \<open>insertPoint(2, (5,5))\<close> returns normally and the point has
  been appended.
\<close>

theorem insertPoint_out_of_range_counterexample:
  "consistent one_point
   \<and> int (length (points one_point)) < 2
   \<and> fst (insertPoint 2 (QPointF 5 5) one_point) = Returned ()
   \<and> fst (insertPoint 2 (QPointF 5 5) one_point) \<noteq> Raised IndexError
   \<and> points (snd (insertPoint 2 (QPointF 5 5) one_point)) = [QPointF 0 0, QPointF 5 5]
   \<and> points (snd (insertPoint 2 (QPointF 5 5) one_point)) \<noteq> points one_point"
  by (simp add: one_point_eq consistent_def row_of_def insertPoint_def list_insert_def
      np_insert_def flatten_def Let_def)

text \<open>
  Claim C2 as amended.  For a shape with \<open>n\<close> points and an index \<open>i\<close> outside \<open>[0, n]\<close>,
  \<open>insertPoint(i, p)\<close> does not leave the points as they were: the index is clamped, so \<open>p\<close>
  is appended when \<open>i > n\<close> and inserted at position \<open>max(0, n + i)\<close> when \<open>i < 0\<close>, and the
  shape has \<open>n + 1\<close> points afterwards.
\<close>

theorem insertPoint_clamps_index:
  assumes "i < 0 \<or> int (length (points s)) < i"
  shows "points (snd (insertPoint i p s))
           = (if int (length (points s)) < i then points s @ [p]
              else take (nat (max 0 (int (length (points s)) + i))) (points s)
                   @ p # drop (nat (max 0 (int (length (points s)) + i))) (points s))
         \<and> length (points (snd (insertPoint i p s))) = length (points s) + 1
         \<and> points (snd (insertPoint i p s)) \<noteq> points s"
proof -
  have st: "points (snd (insertPoint i p s)) = list_insert (points s) i p"
    by (simp add: insertPoint_state)
  have shape: "list_insert (points s) i p
           = (if int (length (points s)) < i then points s @ [p]
              else take (nat (max 0 (int (length (points s)) + i))) (points s)
                   @ p # drop (nat (max 0 (int (length (points s)) + i))) (points s))"
    using assms by (auto simp add: list_insert_def Let_def add.commute min_def)
  have len: "length (list_insert (points s) i p) = length (points s) + 1"
    by (simp add: length_list_insert)
  have ne: "list_insert (points s) i p \<noteq> points s"
    using len by (metis add_cancel_right_right zero_neq_one)
  from st shape len ne show ?thesis by simp
qed

theorem insertPoint_clamps_index_witness:
  "(2 < (0::int) \<or> int (length (points one_point)) < 2)
   \<and> points (snd (insertPoint 2 (QPointF 5 5) one_point)) = [QPointF 0 0, QPointF 5 5]
   \<and> ((- 3) < (0::int) \<or> int (length (points two_points)) < - 3)
   \<and> points (snd (insertPoint (- 3) (QPointF 5 5) two_points))
       = [QPointF 5 5, QPointF 0 0, QPointF 10 0]
   \<and> ((- 1) < (0::int) \<or> int (length (points two_points)) < - 1)
   \<and> points (snd (insertPoint (- 1) (QPointF 5 5) two_points))
       = [QPointF 0 0, QPointF 5 5, QPointF 10 0]"
proof -
  have h1: "2 < (0::int) \<or> int (length (points one_point)) < 2"
    by (simp add: one_point_eq)
  have h2: "(- 3) < (0::int) \<or> int (length (points two_points)) < - 3" by simp
  have h3: "(- 1) < (0::int) \<or> int (length (points two_points)) < - 1" by simp
  have a: "points (snd (insertPoint 2 (QPointF 5 5) one_point)) = [QPointF 0 0, QPointF 5 5]"
    using insertPoint_clamps_index [OF h1, of "QPointF 5 5"] by (simp add: one_point_eq)
  have b: "points (snd (insertPoint (- 3) (QPointF 5 5) two_points))
       = [QPointF 5 5, QPointF 0 0, QPointF 10 0]"
    using insertPoint_clamps_index [OF h2, of "QPointF 5 5"] by (simp add: two_points_eq)
  have c: "points (snd (insertPoint (- 1) (QPointF 5 5) two_points))
       = [QPointF 0 0, QPointF 5 5, QPointF 10 0]"
    using insertPoint_clamps_index [OF h3, of "QPointF 5 5"] by (simp add: two_points_eq)
  from h1 h2 h3 a b c show ?thesis by blast
qed

section \<open>Inserting and removing again\<close>

text \<open>
  Claim C3.  \<open>insertPoint(i, p)\<close> followed by \<open>removePoint(i)\<close> should restore points and
  coordinates.  The points are restored, but the coordinates are not: the array was not
  extended by the insertion, and the removal deletes row \<open>i\<close> of the original array.  On
  the shape with the single point \<open>(0,0)\<close> and \<open>i = 0\<close> the array ends up without rows.
\<close>

theorem insertPoint_removePoint_loses_row:
  "consistent one_point
   \<and> points (fst (removePoint 0 (snd (insertPoint 0 (QPointF 5 5) one_point))))
       = points one_point
   \<and> poly_array (fst (removePoint 0 (snd (insertPoint 0 (QPointF 5 5) one_point)))) = Some []
   \<and> poly_array one_point = Some [(0, 0)]
   \<and> fst (removePoint 0 (snd (insertPoint 0 (QPointF 5 5) one_point))) \<noteq> one_point"
  by (simp add: one_point_eq consistent_def row_of_def insertPoint_def list_insert_def
      np_insert_def flatten_def Let_def removePoint_def list_pop_def np_delete_def)

section \<open>The nearest vertex\<close>

lemma np_min_Min: "xs \<noteq> [] \<Longrightarrow> np_min xs = Min (set xs)"
  by (cases xs) (simp_all add: np_min_def Min.set_eq_fold [symmetric])

lemma argmin_from_first:
  assumes "best < length pre" and "bv = pre ! best"
    and "\<forall>j < length pre. bv \<le> pre ! j"
    and "\<forall>j < best. bv < pre ! j"
  shows "argmin_from xs (length pre) best bv < length (pre @ xs)
       \<and> (\<forall>j < length (pre @ xs).
             (pre @ xs) ! argmin_from xs (length pre) best bv \<le> (pre @ xs) ! j)
       \<and> (\<forall>j < argmin_from xs (length pre) best bv.
             (pre @ xs) ! argmin_from xs (length pre) best bv < (pre @ xs) ! j)"
  using assms
proof (induction xs arbitrary: pre best bv)
  case Nil
  then show ?case by simp
next
  case (Cons x xs)
  show ?case
  proof (cases "x < bv")
    case True
    have a: "length pre < length (pre @ [x])" by simp
    have b: "x = (pre @ [x]) ! length pre" by simp
    have c: "\<forall>j < length (pre @ [x]). x \<le> (pre @ [x]) ! j"
      using True Cons.prems(3) by (auto simp: nth_append less_Suc_eq)
    have d: "\<forall>j < length pre. x < (pre @ [x]) ! j"
      using True Cons.prems(3) by (auto simp: nth_append)
    from Cons.IH [OF a b c d] True show ?thesis by simp
  next
    case False
    have a: "best < length (pre @ [x])" using Cons.prems(1) by simp
    have b: "bv = (pre @ [x]) ! best" using Cons.prems(1,2) by (simp add: nth_append)
    have c: "\<forall>j < length (pre @ [x]). bv \<le> (pre @ [x]) ! j"
      using False Cons.prems(3) by (auto simp: nth_append less_Suc_eq)
    have d: "\<forall>j < best. bv < (pre @ [x]) ! j"
      using Cons.prems(1,4) by (auto simp: nth_append)
    from Cons.IH [OF a b c d] False show ?thesis by simp
  qed
qed

lemma np_argmin_first:
  assumes "xs \<noteq> []"
  shows "np_argmin xs < length xs
       \<and> (\<forall>j < length xs. xs ! np_argmin xs \<le> xs ! j)
       \<and> (\<forall>j < np_argmin xs. xs ! np_argmin xs < xs ! j)"
proof -
  obtain x rest where xs: "xs = x # rest" using assms by (cases xs) auto
  have "argmin_from rest (length [x]) 0 x < length ([x] @ rest)
       \<and> (\<forall>j < length ([x] @ rest).
             ([x] @ rest) ! argmin_from rest (length [x]) 0 x \<le> ([x] @ rest) ! j)
       \<and> (\<forall>j < argmin_from rest (length [x]) 0 x.
             ([x] @ rest) ! argmin_from rest (length [x]) 0 x < ([x] @ rest) ! j)"
    by (rule argmin_from_first) simp_all
  then show ?thesis by (simp add: xs np_argmin_def)
qed

lemma np_min_argmin: "xs \<noteq> [] \<Longrightarrow> np_min xs = xs ! np_argmin xs"
proof -
  assume n: "xs \<noteq> []"
  have m: "np_argmin xs < length xs" and le: "\<forall>j < length xs. xs ! np_argmin xs \<le> xs ! j"
    using np_argmin_first [OF n] by blast+
  have "Min (set xs) = xs ! np_argmin xs"
  proof (rule Min_eqI)
    show "finite (set xs)" by simp
    show "\<And>y. y \<in> set xs \<Longrightarrow> xs ! np_argmin xs \<le> y"
      using le by (auto simp: in_set_conv_nth)
    show "xs ! np_argmin xs \<in> set xs" using m by simp
  qed
  then show ?thesis by (simp add: np_min_Min [OF n])
qed


text \<open>
  Claim C6.  On a shape with a non-empty coordinate array that agrees with the points,
  \<open>nearestVertex(point, epsilon)\<close> finds the first index \<open>i\<close> at which the squared distance
  of the point to the vertices is least (no vertex is nearer, every earlier vertex is
  strictly farther).  It returns \<open>(i, None)\<close> when the square root of that least value is
  below \<open>epsilon\<close>, and \<open>(None, i)\<close> otherwise.
\<close>

theorem nearestVertex_first_argmin:
  assumes "consistent s" and "points s \<noteq> []"
  shows "\<exists>i < length (points s).
           (\<forall>j < length (points s).
               (xp (points s ! i) - xp p)\<^sup>2 + (yp (points s ! i) - yp p)\<^sup>2
               \<le> (xp (points s ! j) - xp p)\<^sup>2 + (yp (points s ! j) - yp p)\<^sup>2)
         \<and> (\<forall>j < i.
               (xp (points s ! i) - xp p)\<^sup>2 + (yp (points s ! i) - yp p)\<^sup>2
               < (xp (points s ! j) - xp p)\<^sup>2 + (yp (points s ! j) - yp p)\<^sup>2)
         \<and> nearestVertex p epsilon s
             = (if sqrt ((xp (points s ! i) - xp p)\<^sup>2 + (yp (points s ! i) - yp p)\<^sup>2) < epsilon
                then Returned (Some i, None) else Returned (None, Some i))"
proof -
  let ?sq = "\<lambda>q. (xp q - xp p)\<^sup>2 + (yp q - yp p)\<^sup>2"
  let ?dist = "map ?sq (points s)"
  let ?i = "np_argmin ?dist"
  have arr: "poly_array s = Some (map row_of (points s))"
    using assms(1) by (simp add: consistent_def)
  have ne: "?dist \<noteq> []" using assms(2) by simp
  have nv: "nearestVertex p epsilon s
      = (if sqrt (np_min ?dist) < epsilon then Returned (Some ?i, None)
         else Returned (None, Some ?i))"
    using assms(2) by (simp add: nearestVertex_def arr Let_def row_of_def comp_def)
  have i: "?i < length ?dist"
    and le: "\<forall>j < length ?dist. ?dist ! ?i \<le> ?dist ! j"
    and lt: "\<forall>j < ?i. ?dist ! ?i < ?dist ! j"
    using np_argmin_first [OF ne] by blast+
  have il: "?i < length (points s)" using i by simp
  have mn: "np_min ?dist = ?sq (points s ! ?i)"
    using np_min_argmin [OF ne] il by simp
  have le': "\<forall>j < length (points s). ?sq (points s ! ?i) \<le> ?sq (points s ! j)"
    using le il by simp
  have lt': "\<forall>j < ?i. ?sq (points s ! ?i) < ?sq (points s ! j)"
  proof (intro allI impI)
    fix j assume j: "j < ?i"
    then have "j < length (points s)" using il by simp
    with lt j il show "?sq (points s ! ?i) < ?sq (points s ! j)" by simp
  qed
  have res: "nearestVertex p epsilon s
      = (if sqrt (?sq (points s ! ?i)) < epsilon then Returned (Some ?i, None)
         else Returned (None, Some ?i))"
    using nv mn by simp
  from il le' lt' res show ?thesis by blast
qed

lemma closed_square_consistent: "consistent closed_square"
  by (simp add: closed_square_eq consistent_def row_of_def)

theorem nearestVertex_first_argmin_witness:
  "consistent closed_square \<and> points closed_square \<noteq> []
   \<and> nearestVertex (QPointF (1/2) (1/2)) 2 closed_square = Returned (Some 0, None)
   \<and> nearestVertex (QPointF 5 5) 1 closed_square = Returned (None, Some 0)"
proof -
  have c: "consistent closed_square" by (rule closed_square_consistent)
  have n: "points closed_square \<noteq> []" by (simp add: closed_square_eq)
  have pts: "points closed_square = [QPointF 0 0, QPointF 10 0, QPointF 10 10, QPointF 0 10]"
    by (simp add: closed_square_eq)
  have a: "nearestVertex (QPointF (1/2) (1/2)) 2 closed_square = Returned (Some 0, None)"
  proof -
    obtain i where i: "i < length (points closed_square)"
      and le: "\<forall>j < length (points closed_square).
               (xp (points closed_square ! i) - xp (QPointF (1/2) (1/2)))\<^sup>2
                 + (yp (points closed_square ! i) - yp (QPointF (1/2) (1/2)))\<^sup>2
               \<le> (xp (points closed_square ! j) - xp (QPointF (1/2) (1/2)))\<^sup>2
                 + (yp (points closed_square ! j) - yp (QPointF (1/2) (1/2)))\<^sup>2"
      and r: "nearestVertex (QPointF (1/2) (1/2)) 2 closed_square
             = (if sqrt ((xp (points closed_square ! i) - xp (QPointF (1/2) (1/2)))\<^sup>2
                   + (yp (points closed_square ! i) - yp (QPointF (1/2) (1/2)))\<^sup>2) < 2
                then Returned (Some i, None) else Returned (None, Some i))"
      using nearestVertex_first_argmin [OF c n, of "QPointF (1/2) (1/2)" 2] by blast
    have cases: "i = 0 \<or> i = 1 \<or> i = 2 \<or> i = 3" using i unfolding pts by simp linarith
    have le0: "(xp (points closed_square ! i) - 1/2)\<^sup>2 + (yp (points closed_square ! i) - 1/2)\<^sup>2
               \<le> 1/2"
      using le [rule_format, of 0] unfolding pts by (simp add: power2_eq_square)
    have i0: "i = 0"
      using cases le0 unfolding pts by (auto simp add: power2_eq_square)
    have s: "sqrt (1/2) < 2" by (rule real_less_lsqrt) simp_all
    show ?thesis using r s unfolding i0 pts by (simp add: power2_eq_square)
  qed
  have b: "nearestVertex (QPointF 5 5) 1 closed_square = Returned (None, Some 0)"
  proof -
    obtain i where i: "i < length (points closed_square)"
      and lt: "\<forall>j < i.
               (xp (points closed_square ! i) - xp (QPointF 5 5))\<^sup>2
                 + (yp (points closed_square ! i) - yp (QPointF 5 5))\<^sup>2
               < (xp (points closed_square ! j) - xp (QPointF 5 5))\<^sup>2
                 + (yp (points closed_square ! j) - yp (QPointF 5 5))\<^sup>2"
      and r: "nearestVertex (QPointF 5 5) 1 closed_square
             = (if sqrt ((xp (points closed_square ! i) - xp (QPointF 5 5))\<^sup>2
                   + (yp (points closed_square ! i) - yp (QPointF 5 5))\<^sup>2) < 1
                then Returned (Some i, None) else Returned (None, Some i))"
      using nearestVertex_first_argmin [OF c n, of "QPointF 5 5" 1] by blast
    have cases: "i = 0 \<or> i = 1 \<or> i = 2 \<or> i = 3" using i unfolding pts by simp linarith
    have i0: "i = 0"
    proof (rule ccontr)
      assume "i \<noteq> 0"
      then have "0 < i" by simp
      from lt [rule_format, OF this] cases show False
        unfolding pts by (auto simp add: power2_eq_square)
    qed
    have s: "\<not> sqrt 50 < 1"
    proof -
      have "1 \<le> sqrt 50" by (rule real_le_rsqrt) simp
      then show ?thesis by simp
    qed
    show ?thesis using r s unfolding i0 pts by (simp add: power2_eq_square)
  qed
  from c n a b show ?thesis by blast
qed

section \<open>The nearest edge\<close>

lemma nearestEdge_searches:
  assumes "\<not> (\<bar>t - of_int (round t)\<bar> \<le> 5 / 1000 \<and> prev_val s \<noteq> None)"
    and "poly_array s = Some a"
  shows "fst (nearestEdge dl t p epsilon m s)
           = Returned (map_option snd
               (edge_search dl p epsilon a (index_pairs m (length a div 2))))"
  using assms by (auto simp add: nearestEdge_def Let_def split: option.splits)

lemma index_pairs_square:
  "index_pairs 0 (length [(0::real, 0::real), (10, 0), (10, 10), (0, 10)] div 2)
     = [(0, 0), (1, - 1)]"
  by (simp add: index_pairs_def)

lemma dist_left: "distancetoline (QPointF 5 0) [(0, 10), (0, 0)] = 5"
  by (simp add: Let_def sqrt_25)

lemma dist_bottom: "distancetoline (QPointF 5 0) [(0, 0), (10, 0)] = 0"
  by (simp add: Let_def)

lemma square_line_pos_0: "line_pos [(0, 0), (10, 0), (10, 10), (0, 10)] 0 = (0, [(0, 10), (0, 0)])"
  by (simp add: line_pos_def)

lemma square_line_neg_0: "line_neg [(0, 0), (10, 0), (10, 10), (0, 10)] 0 = [(0, 10), (0, 0)]"
  by (simp add: line_neg_def)

lemma square_line_pos_1: "line_pos [(0, 0), (10, 0), (10, 10), (0, 10)] 1 = (1, [(0, 0), (10, 0)])"
  by (simp add: line_pos_def py_slice_def slice_bound_def Let_def)

lemma square_line_neg_m1: "line_neg [(0, 0), (10, 0), (10, 10), (0, 10)] (- 1) = [(0, 0), (10, 0)]"
  by (simp add: line_neg_def)

lemma square_search:
  "edge_search distancetoline (QPointF 5 0) (1/2) [(0, 0), (10, 0), (10, 10), (0, 10)]
     (index_pairs 0 (length [(0::real, 0::real), (10, 0), (10, 10), (0, 10)] div 2))
     = Some (1, 1)"
  unfolding index_pairs_square
  by (simp add: square_line_pos_0 square_line_neg_0 square_line_pos_1
      square_line_neg_m1 dist_left dist_bottom Let_def del: distancetoline.simps)

lemma nearestEdge_square:
  "nearestEdge distancetoline 0 (QPointF 5 0) (1/2) 0 closed_square
     = (Returned (Some 1), closed_square\<lparr>prev_val := Some 1\<rparr>)"
  unfolding nearestEdge_def closed_square_eq
  by (simp add: square_search Let_def
      del: distancetoline.simps edge_search.simps length_Cons list.size)


lemma clock_off_second: "\<not> \<bar>(1/2::real) - of_int (round (1/2::real))\<bar> \<le> 5 / 1000"
  by (simp add: round_def)

subsection \<open>The segments the loop tests\<close>

lemma take_2_drop: "Suc k < length a \<Longrightarrow> take 2 (drop k a) = [a ! k, a ! Suc k]"
proof -
  assume h: "Suc k < length a"
  then have "drop k a = a ! k # a ! Suc k # drop (Suc (Suc k)) a"
    by (simp add: Cons_nth_drop_Suc Suc_lessD)
  then show ?thesis by (simp add: numeral_2_eq_2)
qed

lemma py_slice_pair:
  assumes "1 \<le> e" and "e < int (length a)"
  shows "py_slice a (e - 1) (e + 1) = [a ! nat (e - 1), a ! nat e]"
proof -
  have l: "slice_bound (e - 1) (length a) = nat (e - 1)"
    using assms by (simp add: slice_bound_def)
  have h: "slice_bound (e + 1) (length a) = nat (e + 1)"
    using assms by (simp add: slice_bound_def)
  have d: "nat (e + 1) - nat (e - 1) = 2" using assms by linarith
  have s: "Suc (nat (e - 1)) = nat e" using assms by linarith
  have "Suc (nat (e - 1)) < length a" using assms by linarith
  from take_2_drop [OF this] show ?thesis
    by (simp add: py_slice_def l h d s)
qed

lemma py_slice_pair_negative:
  assumes "j < - 1" and "- int (length a) < j"
  shows "py_slice a (j - 1) (j + 1)
           = [a ! nat (int (length a) + j - 1), a ! nat (int (length a) + j)]"
proof -
  have l: "slice_bound (j - 1) (length a) = nat (int (length a) + j - 1)"
    using assms by (simp add: slice_bound_def max_def) 
  have h: "slice_bound (j + 1) (length a) = nat (int (length a) + j + 1)"
    using assms by (simp add: slice_bound_def max_def add.commute add.left_commute)
  have d: "nat (int (length a) + j + 1) - nat (int (length a) + j - 1) = 2"
    using assms by linarith
  have s: "Suc (nat (int (length a) + j - 1)) = nat (int (length a) + j)"
    using assms by linarith
  have "Suc (nat (int (length a) + j - 1)) < length a" using assms by linarith
  from take_2_drop [OF this] show ?thesis
    by (simp add: py_slice_def l h d s)
qed

lemma line_pos_segment:
  assumes "2 \<le> length a" and "0 \<le> i" and "i < 2 * int (length a)"
  shows "snd (line_pos a i)
           = [a ! nat ((i - 1) mod int (length a)), a ! nat (i mod int (length a))]"
proof -
  let ?n = "int (length a)"
  have ne: "a \<noteq> []" using assms(1) by auto
  consider "i = 0" | "i = ?n" | "0 < i" "i < ?n" | "?n < i" "i < 2 * ?n"
    using assms(2,3) by linarith
  then show ?thesis
  proof cases
    case 1
    have "0 < ?n" using assms(1) by linarith
    then have "(- 1) mod ?n = ?n - 1" by (rule zmod_minus1)
    then show ?thesis using 1 ne
      by (simp add: line_pos_def last_conv_nth hd_conv_nth nat_diff_distrib')
  next
    case 2
    have "0 \<le> ?n - 1" "?n - 1 < ?n" using assms(1) by linarith+
    then have "(?n - 1) mod ?n = ?n - 1" by (rule mod_pos_pos_trivial)
    then show ?thesis using 2 ne assms(1)
      by (simp add: line_pos_def last_conv_nth hd_conv_nth nat_diff_distrib')
  next
    case 3
    have m: "i mod ?n = i" "(i - 1) mod ?n = i - 1" using 3 by simp_all
    have "py_slice a (i - 1) (i + 1) = [a ! nat (i - 1), a ! nat i]"
      by (rule py_slice_pair) (use 3 in simp_all)
    then show ?thesis using 3 by (simp add: line_pos_def Let_def m)
  next
    case 4
    have b1: "0 \<le> i - ?n" "i - ?n < ?n" using 4 by linarith+
    have b2: "0 \<le> i - ?n - 1" "i - ?n - 1 < ?n" using 4 by linarith+
    have "i mod ?n = (i - ?n) mod ?n"
      using mod_add_self2 [of "i - ?n" ?n] by simp
    also have "\<dots> = i - ?n" using b1 by (rule mod_pos_pos_trivial)
    finally have m: "i mod ?n = i - ?n" .
    have "(i - 1) mod ?n = (i - ?n - 1) mod ?n"
      using mod_add_self2 [of "i - ?n - 1" ?n] by simp
    also have "\<dots> = i - ?n - 1" using b2 by (rule mod_pos_pos_trivial)
    finally have m': "(i - 1) mod ?n = i - ?n - 1" .
    have "py_slice a (i - ?n - 1) (i - ?n + 1) = [a ! nat (i - ?n - 1), a ! nat (i - ?n)]"
      by (rule py_slice_pair) (use 4 in simp_all)
    then show ?thesis using 4 by (simp add: line_pos_def Let_def m m')
  qed
qed


lemma line_neg_segment:
  assumes "2 \<le> length a" and "- int (length a) < j" and "j < int (length a)" and "j \<noteq> - 1"
  shows "line_neg a j
           = [a ! nat ((j - 1) mod int (length a)), a ! nat (j mod int (length a))]"
proof -
  let ?n = "int (length a)"
  have ne: "a \<noteq> []" using assms(1) by auto
  consider "0 < j" | "j = 0" | "j < - 1"
    using assms(4) by linarith
  then show ?thesis
  proof cases
    case 1
    have m: "j mod ?n = j" "(j - 1) mod ?n = j - 1" using 1 assms(3) by simp_all
    have "py_slice a (j - 1) (j + 1) = [a ! nat (j - 1), a ! nat j]"
      by (rule py_slice_pair) (use 1 assms(3) in simp_all)
    then show ?thesis using 1 by (simp add: line_neg_def m)
  next
    case 2
    have "0 < ?n" using assms(1) by linarith
    then have "(- 1) mod ?n = ?n - 1" by (rule zmod_minus1)
    then show ?thesis using 2 ne
      by (simp add: line_neg_def last_conv_nth hd_conv_nth nat_diff_distrib')
  next
    case 3
    have b1: "0 \<le> ?n + j" "?n + j < ?n" using 3 assms(2) by linarith+
    have b2: "0 \<le> ?n + j - 1" "?n + j - 1 < ?n" using 3 assms(2) by linarith+
    have "j mod ?n = (?n + j) mod ?n"
      using mod_add_self1 [of ?n j] by simp
    also have "\<dots> = ?n + j" using b1 by (rule mod_pos_pos_trivial)
    finally have m: "j mod ?n = ?n + j" .
    have e: "?n + (j - 1) = ?n + j - 1" by simp
    have "(?n + j - 1) mod ?n = ?n + j - 1" using b2 by (rule mod_pos_pos_trivial)
    then have m': "(j - 1) mod ?n = ?n + j - 1"
      using mod_add_self1 [of ?n "j - 1"] unfolding e by simp
    have "py_slice a (j - 1) (j + 1) = [a ! nat (?n + j - 1), a ! nat (?n + j)]"
      by (rule py_slice_pair_negative) (use 3 assms(2) in simp_all)
    then show ?thesis using 3 by (simp add: line_neg_def m m')
  qed
qed

lemma line_neg_minus_one: "2 \<le> length a \<Longrightarrow> line_neg a (- 1) = [a ! 0, a ! 1]"
  using take_2_drop [of 0 a] by (simp add: line_neg_def)

subsection \<open>The loop and the search of the specification\<close>

lemma index_pairs_map: "index_pairs m h = map (\<lambda>k. (m + int k, m - int k)) [0..<h]"
  by (induction h) (simp_all add: index_pairs_def)

lemma line_pos_index: "fst (line_pos a i) = spec_forward_index (length a) i"
  by (simp add: line_pos_def spec_forward_index_def Let_def)

lemma spec_edge_segment_forward:
  "spec_edge_segment a (spec_forward_index (length a) i) = spec_edge_segment a i"
  by (simp add: spec_edge_segment_def spec_forward_index_def mod_diff_left_eq)

lemma line_pos_spec:
  assumes "2 \<le> length a" and "0 \<le> i" and "i < 2 * int (length a)"
  shows "snd (line_pos a i) = spec_edge_segment a (spec_forward_index (length a) i)"
  unfolding spec_edge_segment_forward
  using line_pos_segment [OF assms] by (simp add: spec_edge_segment_def)

lemma line_neg_spec:
  assumes "2 \<le> length a" and "- int (length a) < j" and "j < int (length a)" and "j \<noteq> - 1"
  shows "line_neg a j = spec_edge_segment a j"
  using line_neg_segment [OF assms] by (simp add: spec_edge_segment_def)

lemma line_neg_minus_one_spec:
  assumes "2 \<le> length a"
  shows "line_neg a (- 1) = spec_edge_segment a 1"
proof -
  have "(1::int) mod int (length a) = 1" using assms by simp
  then show ?thesis
    using line_neg_minus_one [OF assms] by (simp add: spec_edge_segment_def)
qed


text \<open>
  One step of the loop against one step of the search of the specification.  The loop
  tests the segment of the forward index, and the segment of the backward index unless
  that index is \<open>-1\<close>, where it tests the edge of index \<open>1\<close> once more.
\<close>

lemma edge_search_from:
  assumes n2: "2 \<le> length a" and m0: "0 \<le> m" and mn: "m < int (length a)"
    and H: "m + 1 < int (length a div 2) \<longrightarrow> epsilon < dl p (spec_edge_segment a (- 1))"
  shows "k0 \<le> length a div 2 \<Longrightarrow>
         (1 \<le> m \<and> m \<le> int k0 \<longrightarrow> epsilon < dl p (spec_edge_segment a 1)) \<Longrightarrow>
         map_option snd
           (edge_search dl p epsilon a
              (map (\<lambda>k. (m + int k, m - int k)) [k0..<length a div 2]))
         = find (\<lambda>e. dl p (spec_edge_segment a e) \<le> epsilon)
             (concat (map (\<lambda>k. [spec_forward_index (length a) (m + int k), m - int k])
                        [k0..<length a div 2]))"
proof (induction "length a div 2 - k0" arbitrary: k0)
  case 0
  then have "length a div 2 \<le> k0" by linarith
  then have e: "[k0..<length a div 2] = []" by simp
  show ?case unfolding e by simp
next
  case (Suc d)
  let ?h = "length a div 2"
  let ?n = "int (length a)"
  let ?i = "m + int k0"
  let ?j = "m - int k0"
  have k: "k0 < ?h" using Suc.hyps(2) by linarith
  have upt: "[k0..<?h] = k0 # [Suc k0..<?h]" using k by (rule upt_conv_Cons)
  have hn: "int ?h \<le> ?n" by linarith
  have h2: "2 * int ?h \<le> ?n" by linarith
  have i0: "0 \<le> ?i" using m0 by simp
  have i2: "?i < 2 * ?n" using mn k hn by linarith
  have jl: "- ?n < ?j" using m0 k h2 n2 by linarith
  have ju: "?j < ?n" using mn by linarith
  have fi: "fst (line_pos a ?i) = spec_forward_index (length a) ?i"
    by (rule line_pos_index)
  have si: "snd (line_pos a ?i) = spec_edge_segment a (spec_forward_index (length a) ?i)"
    using n2 i0 i2 by (rule line_pos_spec)
  have d: "d = ?h - Suc k0" using Suc.hyps(2) by linarith
  have sk: "Suc k0 \<le> ?h" using k by simp
  show ?case
  proof (cases "dl p (spec_edge_segment a (spec_forward_index (length a) ?i)) \<le> epsilon")
    case True
    then show ?thesis unfolding upt by (simp add: fi si Let_def)
  next
    case fwd: False
    show ?thesis
    proof (cases "?j = - 1")
      case minus: True
      have reach: "m + 1 < int ?h" using minus k by linarith
      have far: "epsilon < dl p (spec_edge_segment a (- 1))" using H reach by blast
      have one: "epsilon < dl p (spec_edge_segment a 1)"
      proof (cases "m = 0")
        case True
        then have "?i = 1" using minus by linarith
        then have "spec_forward_index (length a) ?i = 1"
          using n2 by (simp add: spec_forward_index_def)
        then show ?thesis using fwd by simp
      next
        case False
        then have "1 \<le> m \<and> m \<le> int k0" using m0 minus by linarith
        then show ?thesis using Suc.prems(2) by blast
      qed
      have ln: "line_neg a ?j = spec_edge_segment a 1"
        unfolding minus using n2 by (rule line_neg_minus_one_spec)
      have inv': "1 \<le> m \<and> m \<le> int (Suc k0) \<longrightarrow> epsilon < dl p (spec_edge_segment a 1)"
        using one by blast
      have IH: "map_option snd
           (edge_search dl p epsilon a
              (map (\<lambda>k. (m + int k, m - int k)) [Suc k0..<?h]))
         = find (\<lambda>e. dl p (spec_edge_segment a e) \<le> epsilon)
             (concat (map (\<lambda>k. [spec_forward_index (length a) (m + int k), m - int k])
                        [Suc k0..<?h]))"
        using Suc.hyps(1) [OF d sk inv'] .
      have nj: "\<not> dl p (spec_edge_segment a ?j) \<le> epsilon" using far minus by simp
      have nc: "\<not> dl p (line_neg a ?j) \<le> epsilon" using one ln by simp
      show ?thesis unfolding upt using fwd nj nc IH by (simp add: fi si Let_def)
    next
      case other: False
      have ln: "line_neg a ?j = spec_edge_segment a ?j"
        using n2 jl ju other by (rule line_neg_spec)
      show ?thesis
      proof (cases "dl p (spec_edge_segment a ?j) \<le> epsilon")
        case True
        then show ?thesis unfolding upt using fwd by (simp add: fi si ln Let_def)
      next
        case bwd: False
        have inv': "1 \<le> m \<and> m \<le> int (Suc k0) \<longrightarrow> epsilon < dl p (spec_edge_segment a 1)"
        proof
          assume a: "1 \<le> m \<and> m \<le> int (Suc k0)"
          show "epsilon < dl p (spec_edge_segment a 1)"
          proof (cases "m \<le> int k0")
            case True
            then show ?thesis using a Suc.prems(2) by blast
          next
            case False
            then have "?j = 1" using a by linarith
            then show ?thesis using bwd by simp
          qed
        qed
        have IH: "map_option snd
           (edge_search dl p epsilon a
              (map (\<lambda>k. (m + int k, m - int k)) [Suc k0..<?h]))
         = find (\<lambda>e. dl p (spec_edge_segment a e) \<le> epsilon)
             (concat (map (\<lambda>k. [spec_forward_index (length a) (m + int k), m - int k])
                        [Suc k0..<?h]))"
          using Suc.hyps(1) [OF d sk inv'] .
        show ?thesis unfolding upt using fwd bwd IH by (simp add: fi si ln Let_def)
      qed
    qed
  qed
qed

lemma edge_search_spec:
  assumes "0 \<le> m" and "m < int (length a)"
    and "m + 1 < int (length a div 2) \<longrightarrow> epsilon < dl p (spec_edge_segment a (- 1))"
  shows "map_option snd (edge_search dl p epsilon a (index_pairs m (length a div 2)))
           = spec_nearestEdge dl p epsilon a m"
proof (cases "2 \<le> length a")
  case True
  have "map_option snd
           (edge_search dl p epsilon a
              (map (\<lambda>k. (m + int k, m - int k)) [0..<length a div 2]))
         = find (\<lambda>e. dl p (spec_edge_segment a e) \<le> epsilon)
             (concat (map (\<lambda>k. [spec_forward_index (length a) (m + int k), m - int k])
                        [0..<length a div 2]))"
  proof (rule edge_search_from)
    show "2 \<le> length a" by (rule True)
    show "0 \<le> m" by (rule assms(1))
    show "m < int (length a)" by (rule assms(2))
    show "m + 1 < int (length a div 2) \<longrightarrow> epsilon < dl p (spec_edge_segment a (- 1))"
      by (rule assms(3))
    show "0 \<le> length a div 2" by simp
    show "1 \<le> m \<and> m \<le> int 0 \<longrightarrow> epsilon < dl p (spec_edge_segment a 1)" by simp
  qed
  then show ?thesis
    by (simp only: index_pairs_map spec_nearestEdge_def spec_search_order_def)
next
  case False
  then have "length a div 2 = 0" by simp
  then show ?thesis
    by (simp add: index_pairs_map spec_nearestEdge_def spec_search_order_def)
qed


lemma dart_eq:
  "dart = \<lparr>points = [QPointF 5 1, QPointF 5 20, QPointF 0 0, QPointF 10 0],
            poly_array = Some [(5, 1), (5, 20), (0, 0), (10, 0)],
            shape_type = Polygon, is_closed = False, prev_val = None\<rparr>"
  by (simp add: dart_def draw_def Shape_init_def addPoint_def init_poly_array_def
      np_append_def row_of_def close_def QPointF_eq_def qFuzzyIsNull_def)

lemma square_segments:
  "spec_edge_segment [(0, 0), (10, 0), (10, 10), (0, 10)] 0 = [(0, 10), (0, 0)]"
  "spec_edge_segment [(0, 0), (10, 0), (10, 10), (0, 10)] 1 = [(0, 0), (10, 0)]"
  "spec_edge_segment [(0, 0), (10, 0), (10, 10), (0, 10)] (- 1) = [(10, 10), (0, 10)]"
  by (simp_all add: spec_edge_segment_def)

lemma square_order: "spec_search_order (length [(0::real, 0::real), (10, 0), (10, 10), (0, 10)]) 0
                       = [0, 0, 1, - 1]"
  by (simp add: spec_search_order_def spec_forward_index_def)

text \<open>
  Claim C4 as amended.  Let \<open>minDistIndex\<close> be a vertex index, let \<open>nearestEdge\<close> not return
  the cached previous value (there is none, or the clock is not within 5 ms of a full
  second), and let the edge of the backward index \<open>-1\<close>, if the search reaches it, be farther
  than \<open>epsilon\<close>.  Then \<open>nearestEdge\<close> searches outward from \<open>minDistIndex\<close> in both
  directions, at step \<open>k\<close> the forward index \<open>minDistIndex + k\<close> and then the backward index
  \<open>minDistIndex - k\<close>, for \<open>k\<close> below half the number of vertices, and returns the first
  index whose segment is within \<open>epsilon\<close> of the point, and \<open>None\<close> exactly when every edge
  of the search is farther than \<open>epsilon\<close>.  An edge index \<open>e\<close> stands for the segment from
  vertex \<open>e - 1\<close> to vertex \<open>e\<close> (modulo the number of vertices): for the closed square
  \<open>(0,0), (10,0), (10,10), (0,10)\<close>, the point \<open>(5,0)\<close>, \<open>epsilon = 0.5\<close> and
  \<open>minDistIndex = 0\<close> the result is 1, the bottom edge.
\<close>

theorem nearestEdge_first_hit:
  assumes "\<not> (\<bar>t - of_int (round t)\<bar> \<le> 5 / 1000 \<and> prev_val s \<noteq> None)"
    and "poly_array s = Some a"
    and "0 \<le> m" and "m < int (length a)"
    and "m + 1 < int (length a div 2) \<longrightarrow> epsilon < dl p (spec_edge_segment a (- 1))"
  shows "fst (nearestEdge dl t p epsilon m s) = Returned (spec_nearestEdge dl p epsilon a m)
         \<and> (fst (nearestEdge dl t p epsilon m s) = Returned None
              \<longleftrightarrow> (\<forall>e \<in> set (spec_search_order (length a) m).
                     epsilon < dl p (spec_edge_segment a e)))
         \<and> (\<forall>e. fst (nearestEdge dl t p epsilon m s) = Returned (Some e)
              \<longrightarrow> (\<exists>q < length (spec_search_order (length a) m).
                     spec_search_order (length a) m ! q = e
                     \<and> dl p (spec_edge_segment a e) \<le> epsilon
                     \<and> (\<forall>r < q. epsilon
                           < dl p (spec_edge_segment a (spec_search_order (length a) m ! r)))))
         \<and> fst (nearestEdge distancetoline 0 (QPointF 5 0) (1/2) 0 closed_square)
             = Returned (Some 1)"
proof -
  let ?order = "spec_search_order (length a) m"
  have r: "fst (nearestEdge dl t p epsilon m s) = Returned (spec_nearestEdge dl p epsilon a m)"
    unfolding nearestEdge_searches [OF assms(1,2)] edge_search_spec [where dl = dl and p = p, OF assms(3,4,5)] ..
  have n: "fst (nearestEdge dl t p epsilon m s) = Returned None
              \<longleftrightarrow> (\<forall>e \<in> set ?order. epsilon < dl p (spec_edge_segment a e))"
    unfolding r spec_nearestEdge_def by (auto simp add: find_None_iff not_le)
  have f: "\<forall>e. fst (nearestEdge dl t p epsilon m s) = Returned (Some e)
              \<longrightarrow> (\<exists>q < length ?order. ?order ! q = e
                     \<and> dl p (spec_edge_segment a e) \<le> epsilon
                     \<and> (\<forall>r < q. epsilon < dl p (spec_edge_segment a (?order ! r))))"
    unfolding r spec_nearestEdge_def by (auto simp add: find_Some_iff not_le)
  have e: "fst (nearestEdge distancetoline 0 (QPointF 5 0) (1/2) 0 closed_square)
             = Returned (Some 1)"
    by (simp add: nearestEdge_square)
  from r n f e show ?thesis by blast
qed

theorem nearestEdge_first_hit_witness:
  "\<not> (\<bar>(0::real) - of_int (round (0::real))\<bar> \<le> 5 / 1000 \<and> prev_val closed_square \<noteq> None)
   \<and> poly_array closed_square = Some [(0, 0), (10, 0), (10, 10), (0, 10)]
   \<and> (0::int) < int (length [(0::real, 0::real), (10, 0), (10, 10), (0, 10)])
   \<and> 1 / 2 < distancetoline (QPointF 5 0)
               (spec_edge_segment [(0, 0), (10, 0), (10, 10), (0, 10)] (- 1))
   \<and> fst (nearestEdge distancetoline 0 (QPointF 5 0) (1/2) 0 closed_square) = Returned (Some 1)
   \<and> \<not> (\<bar>(1/2::real) - of_int (round (1/2::real))\<bar> \<le> 5 / 1000
          \<and> prev_val (closed_square\<lparr>prev_val := Some 1\<rparr>) \<noteq> None)
   \<and> 1 / 2 < distancetoline (QPointF 5 9)
               (spec_edge_segment [(0, 0), (10, 0), (10, 10), (0, 10)] (- 1))
   \<and> fst (nearestEdge distancetoline (1/2) (QPointF 5 9) (1/2) 0
            (closed_square\<lparr>prev_val := Some 1\<rparr>)) = Returned None"
proof -
  let ?sq = "[(0::real, 0::real), (10, 0), (10, 10), (0, 10)]"
  have h1: "\<not> (\<bar>(0::real) - of_int (round (0::real))\<bar> \<le> 5 / 1000
               \<and> prev_val closed_square \<noteq> None)"
    by (simp add: closed_square_eq)
  have h2: "poly_array closed_square = Some ?sq"
    by (simp add: closed_square_eq)
  have m0: "(0::int) \<le> 0" by simp
  have mn: "(0::int) < int (length ?sq)" by simp
  have d0: "distancetoline (QPointF 5 0) [(10, 10), (0, 10)] = 10"
    by (simp add: Let_def)
  have far: "1 / 2 < distancetoline (QPointF 5 0) (spec_edge_segment ?sq (- 1))"
    unfolding square_segments d0 by simp
  have H: "0 + 1 < int (length ?sq div 2)
             \<longrightarrow> 1 / 2 < distancetoline (QPointF 5 0) (spec_edge_segment ?sq (- 1))"
    using far by blast
  have a: "fst (nearestEdge distancetoline 0 (QPointF 5 0) (1/2) 0 closed_square)
         = Returned (spec_nearestEdge distancetoline (QPointF 5 0) (1/2) ?sq 0)"
    using nearestEdge_first_hit
      [where dl = distancetoline and p = "QPointF 5 0", OF h1 h2 m0 mn H]
    by blast
  have a': "fst (nearestEdge distancetoline 0 (QPointF 5 0) (1/2) 0 closed_square)
         = Returned (Some 1)"
    unfolding a spec_nearestEdge_def square_order
    by (simp add: square_segments dist_left dist_bottom del: distancetoline.simps)
  have h3: "\<not> (\<bar>(1/2::real) - of_int (round (1/2::real))\<bar> \<le> 5 / 1000
          \<and> prev_val (closed_square\<lparr>prev_val := Some 1\<rparr>) \<noteq> None)"
    using clock_off_second by blast
  have h4: "poly_array (closed_square\<lparr>prev_val := Some 1\<rparr>) = Some ?sq"
    by (simp add: closed_square_eq)
  have d1: "distancetoline (QPointF 5 9) [(0, 10), (0, 0)] = 5"
    by (simp add: Let_def)
  have d2: "distancetoline (QPointF 5 9) [(0, 0), (10, 0)] = 9"
    by (simp add: Let_def)
  have d3: "distancetoline (QPointF 5 9) [(10, 10), (0, 10)] = 1"
    by (simp add: Let_def)
  have far9: "1 / 2 < distancetoline (QPointF 5 9) (spec_edge_segment ?sq (- 1))"
    unfolding square_segments d3 by simp
  have H9: "0 + 1 < int (length ?sq div 2)
             \<longrightarrow> 1 / 2 < distancetoline (QPointF 5 9) (spec_edge_segment ?sq (- 1))"
    using far9 by blast
  have b: "fst (nearestEdge distancetoline (1/2) (QPointF 5 9) (1/2) 0
            (closed_square\<lparr>prev_val := Some 1\<rparr>))
         = Returned (spec_nearestEdge distancetoline (QPointF 5 9) (1/2) ?sq 0)"
    using nearestEdge_first_hit
      [where dl = distancetoline and p = "QPointF 5 9", OF h3 h4 m0 mn H9]
    by blast
  have b': "fst (nearestEdge distancetoline (1/2) (QPointF 5 9) (1/2) 0
            (closed_square\<lparr>prev_val := Some 1\<rparr>)) = Returned None"
    unfolding b spec_nearestEdge_def square_order
    by (simp add: square_segments d1 d2 d3 del: distancetoline.simps)
  from h1 h2 mn far a' h3 far9 b' show ?thesis by blast
qed

text \<open>
  Claim C4 as stated: on the closed square \<open>(0,0), (10,0), (10,10), (0,10)\<close> with the point
  \<open>(5,0)\<close>, \<open>epsilon = 0.5\<close> and \<open>minDistIndex = 0\<close> the result is the edge index 0.  The
  search returns 1: index 0 is the closing edge from \<open>(0,10)\<close> to \<open>(0,0)\<close>, at distance 5
  from the point, and the bottom edge from \<open>(0,0)\<close> to \<open>(10,0)\<close> has index 1.
\<close>

theorem nearestEdge_square_counterexample:
  "is_closed closed_square
   \<and> points closed_square = [QPointF 0 0, QPointF 10 0, QPointF 10 10, QPointF 0 10]
   \<and> poly_array closed_square = Some [(0, 0), (10, 0), (10, 10), (0, 10)]
   \<and> fst (nearestEdge distancetoline 0 (QPointF 5 0) (1/2) 0 closed_square) = Returned (Some 1)
   \<and> fst (nearestEdge distancetoline 0 (QPointF 5 0) (1/2) 0 closed_square) \<noteq> Returned (Some 0)"
  by (simp add: nearestEdge_square) (simp add: closed_square_eq)


text \<open>
  Where the edge of the backward index \<open>-1\<close> is within \<open>epsilon\<close>, the loop and the search of
  the specification part: at that index the loop reads \<open>poly_array[:2]\<close>, the edge of index
  1, and not the segment between the last two vertices.  On the points
  \<open>(5,1), (5,20), (0,0), (10,0)\<close> with the point \<open>(5,0)\<close>, \<open>epsilon = 0.5\<close> and
  \<open>minDistIndex = 0\<close>, the edge from \<open>(0,0)\<close> to \<open>(10,0)\<close> lies one step back at distance 0,
  and the loop returns \<open>None\<close>.
\<close>

lemma dart_closing_edge_far: "1 / 2 < distancetoline (QPointF 5 0) [(10, 0), (5, 1)]"
proof -
  have s: "sqrt 26 < 10" by (rule real_less_lsqrt) simp_all
  have pos: "0 < sqrt 26" by simp
  have d: "distancetoline (QPointF 5 0) [(10, 0), (5, 1)] = 5 / sqrt 26"
    by (simp add: Let_def power2_eq_square)
  have "1 / 2 < 5 / sqrt 26" using s pos by (simp add: field_simps)
  then show ?thesis unfolding d .
qed

lemma dart_first_edge_far: "distancetoline (QPointF 5 0) [(5, 1), (5, 20)] = 1"
  by (simp add: Let_def)

lemma nearestEdge_dart_backward_edge:
  "fst (nearestEdge distancetoline 0 (QPointF 5 0) (1/2) 0 dart) = Returned None
   \<and> spec_edge_segment [(5, 1), (5, 20), (0, 0), (10, 0)] (- 1) = [(0, 0), (10, 0)]
   \<and> distancetoline (QPointF 5 0) [(0, 0), (10, 0)] = 0
   \<and> spec_nearestEdge distancetoline (QPointF 5 0) (1/2) [(5, 1), (5, 20), (0, 0), (10, 0)] 0
       = Some (- 1)"
proof -
  let ?a = "[(5::real, 1::real), (5, 20), (0, 0), (10, 0)]"
  have pairs: "index_pairs 0 (length ?a div 2) = [(0, 0), (1, - 1)]"
    by (simp add: index_pairs_def)
  have l0: "line_pos ?a 0 = (0, [(10, 0), (5, 1)])" by (simp add: line_pos_def)
  have n0: "line_neg ?a 0 = [(10, 0), (5, 1)]" by (simp add: line_neg_def)
  have l1: "line_pos ?a 1 = (1, [(5, 1), (5, 20)])"
    by (simp add: line_pos_def py_slice_def slice_bound_def Let_def)
  have n1: "line_neg ?a (- 1) = [(5, 1), (5, 20)]" by (simp add: line_neg_def)
  have far: "\<not> distancetoline (QPointF 5 0) [(10, 0), (5, 1)] \<le> 1 / 2"
    "\<not> distancetoline (QPointF 5 0) [(10, 0), (5, 1)] * 2 \<le> 1"
    using dart_closing_edge_far by simp_all
  have search: "edge_search distancetoline (QPointF 5 0) (1/2) ?a
                  (index_pairs 0 (length ?a div 2)) = None"
    unfolding pairs
    by (simp add: l0 n0 l1 n1 far dart_first_edge_far Let_def del: distancetoline.simps)
  have code: "fst (nearestEdge distancetoline 0 (QPointF 5 0) (1/2) 0 dart) = Returned None"
    unfolding nearestEdge_def dart_eq
    by (simp add: search Let_def
        del: distancetoline.simps edge_search.simps length_Cons list.size)
  have seg: "spec_edge_segment ?a 0 = [(10, 0), (5, 1)]"
    "spec_edge_segment ?a 1 = [(5, 1), (5, 20)]"
    "spec_edge_segment ?a (- 1) = [(0, 0), (10, 0)]"
    by (simp_all add: spec_edge_segment_def)
  have order: "spec_search_order (length ?a) 0 = [0, 0, 1, - 1]"
    by (simp add: spec_search_order_def spec_forward_index_def)
  have spec: "spec_nearestEdge distancetoline (QPointF 5 0) (1/2) ?a 0 = Some (- 1)"
    unfolding spec_nearestEdge_def order
    by (simp add: seg far dart_first_edge_far dist_bottom del: distancetoline.simps)
  from code seg(3) dist_bottom spec show ?thesis by blast
qed

end
